theory Spec2Isabelle
  imports Complex_Main "HOL-Library.AList"
begin

section \<open>JavaScript values\<close>

text \<open>
  The server (\<^verbatim>\<open>server/server.js\<close>) handles values that come out of \<^verbatim>\<open>JSON.parse\<close>:
  request bodies, and the payloads it reads back from Redis. A number is an IEEE double;
  no arithmetic is ever done on one, so a finite double is represented by the rational it
  denotes (with \<open>-0\<close> identified with \<open>0\<close>, as \<^verbatim>\<open>===\<close> does). \<^verbatim>\<open>JSON.parse\<close> yields
  \<^verbatim>\<open>Infinity\<close> for a literal too large for a double (\<^verbatim>\<open>1e999\<close>), so the non-finite
  numbers are values of their own. Strings are character lists.
\<close>

datatype number = Finite rat | PosInfinity | NegInfinity | NaN

datatype jsval =
    JUndefined
  | JNull
  | JBool bool
  | JNum number
  | JStr string
  | JArr "jsval list"
  | JObj "(string \<times> jsval) list"

text \<open>An object is the list of its own enumerable properties, with distinct keys; it is
  read with \<open>map_of\<close> and written with \<open>AList.update\<close>, which overwrites a property
  where it stands and appends a new one.\<close>

text \<open>\<^verbatim>\<open>ToBoolean\<close>: what \<^verbatim>\<open>!v\<close>, \<^verbatim>\<open>v || w\<close> and \<^verbatim>\<open>filter(Boolean)\<close> test.\<close>

fun truthy :: "jsval \<Rightarrow> bool" where
  "truthy JUndefined = False"
| "truthy JNull = False"
| "truthy (JBool b) = b"
| "truthy (JNum (Finite q)) = (q \<noteq> 0)"
| "truthy (JNum NaN) = False"
| "truthy (JNum PosInfinity) = True"
| "truthy (JNum NegInfinity) = True"
| "truthy (JStr s) = (s \<noteq> [])"
| "truthy (JArr xs) = True"
| "truthy (JObj kvs) = True"

text \<open>\<^verbatim>\<open>a || b\<close>\<close>

definition js_or :: "jsval \<Rightarrow> jsval \<Rightarrow> jsval" where
  "js_or a b = (if truthy a then a else b)"

text \<open>\<^verbatim>\<open>Array.isArray(v)\<close>\<close>

fun isArray :: "jsval \<Rightarrow> bool" where
  "isArray (JArr xs) = True"
| "isArray v = False"

text \<open>\<^verbatim>\<open>v.length\<close>, read only after \<open>isArray v\<close> (the \<^verbatim>\<open>||\<close> chain of the handlers
  short-circuits); the other cases are never evaluated.\<close>

fun js_length :: "jsval \<Rightarrow> nat" where
  "js_length (JArr xs) = length xs"
| "js_length (JStr s) = length s"
| "js_length v = 0"

text \<open>\<^verbatim>\<open>v.k\<close> for a property name \<open>k\<close> that no prototype defines (\<^verbatim>\<open>id\<close>, \<^verbatim>\<open>lngLat\<close>,
  \<^verbatim>\<open>clientId\<close>, \<^verbatim>\<open>updatedAt\<close>, \<^verbatim>\<open>type\<close>, ...) and a \<open>v\<close> other than \<^verbatim>\<open>undefined\<close> and
  \<^verbatim>\<open>null\<close>: the own property, or \<^verbatim>\<open>undefined\<close>.\<close>

fun js_get :: "jsval \<Rightarrow> string \<Rightarrow> jsval" where
  "js_get (JObj kvs) k = (case map_of kvs k of Some x \<Rightarrow> x | None \<Rightarrow> JUndefined)"
| "js_get v k = JUndefined"

text \<open>The decimal name of an array index.\<close>

function decimal :: "nat \<Rightarrow> string" where
  "decimal n = (if n < 10 then [''0123456789'' ! n]
                else decimal (n div 10) @ [''0123456789'' ! (n mod 10)])"
  by pat_completeness auto
termination
  by (relation "measure id") auto

text \<open>The own enumerable properties that the spread \<^verbatim>\<open>...v\<close> copies into an object
  literal: the members of an object, the elements of an array and the characters of a
  string under their indices, nothing for any other value.\<close>

fun own_props :: "jsval \<Rightarrow> (string \<times> jsval) list" where
  "own_props (JObj kvs) = kvs"
| "own_props (JArr xs) = zip (map decimal [0 ..< length xs]) xs"
| "own_props (JStr s) = zip (map decimal [0 ..< length s]) (map (\<lambda>c. JStr [c]) s)"
| "own_props v = []"

text \<open>The object literal \<^verbatim>\<open>{ ...target, ...v }\<close>: each property of \<open>v\<close> is defined on the
  target in turn.\<close>

definition spread :: "jsval \<Rightarrow> (string \<times> jsval) list \<Rightarrow> (string \<times> jsval) list" where
  "spread v target = fold (\<lambda>(k, x). AList.update k x) (own_props v) target"

subsection \<open>JSON text\<close>

text \<open>
  The server never inspects a JSON text except through \<^verbatim>\<open>JSON.parse\<close> and a truth test, so
  a text is represented by what \<^verbatim>\<open>JSON.parse\<close> makes of it: \<open>Json v\<close> is a text that parses
  to \<open>v\<close>, \<open>NotJson s\<close> is the string \<open>s\<close>, which \<^verbatim>\<open>JSON.parse\<close> rejects with a
  \<^verbatim>\<open>SyntaxError\<close> (the empty string is one of these).
\<close>

datatype raw = Json jsval | NotJson string

datatype exn = TypeError | SyntaxError | RedisError | SendError

text \<open>What \<^verbatim>\<open>JSON.parse(JSON.stringify(v))\<close> returns: \<^verbatim>\<open>JSON.stringify\<close> writes a
  non-finite number as \<^verbatim>\<open>null\<close>, an \<^verbatim>\<open>undefined\<close> array element as \<^verbatim>\<open>null\<close>, and leaves
  out an object member whose value is \<^verbatim>\<open>undefined\<close>.\<close>

fun to_json :: "jsval \<Rightarrow> jsval" where
  "to_json (JNum (Finite q)) = JNum (Finite q)"
| "to_json (JNum PosInfinity) = JNull"
| "to_json (JNum NegInfinity) = JNull"
| "to_json (JNum NaN) = JNull"
| "to_json (JArr xs) = JArr (map (\<lambda>x. if x = JUndefined then JNull else to_json x) xs)"
| "to_json (JObj kvs) =
     JObj (map (\<lambda>(k, x). (k, to_json x)) (filter (\<lambda>(k, x). x \<noteq> JUndefined) kvs))"
| "to_json JUndefined = JUndefined"
| "to_json JNull = JNull"
| "to_json (JBool b) = JBool b"
| "to_json (JStr s) = JStr s"

text \<open>\<^verbatim>\<open>JSON.stringify(v)\<close> for a \<open>v\<close> other than \<^verbatim>\<open>undefined\<close> (the server serialises
  object literals only).\<close>

definition JSON_stringify :: "jsval \<Rightarrow> raw" where
  "JSON_stringify v = Json (to_json v)"

text \<open>\<^verbatim>\<open>JSON.parse(s)\<close>: the value, or the \<^verbatim>\<open>SyntaxError\<close> thrown.\<close>

fun JSON_parse :: "raw \<Rightarrow> exn + jsval" where
  "JSON_parse (Json v) = Inr v"
| "JSON_parse (NotJson s) = Inl SyntaxError"

text \<open>The truth value of a string: \<^verbatim>\<open>!!s\<close>. A JSON text is never empty.\<close>

fun raw_truthy :: "raw \<Rightarrow> bool" where
  "raw_truthy (Json v) = True"
| "raw_truthy (NotJson s) = (s \<noteq> [])"

section \<open>Configuration\<close>

text \<open>\<^verbatim>\<open>process.env\<close>. \<^verbatim>\<open>process.env.X || null\<close> is \<^verbatim>\<open>null\<close> (here \<open>None\<close>) when the variable is
  unset or empty. \<^verbatim>\<open>PORT\<close> and \<^verbatim>\<open>REDIS_URL\<close> only say where to listen and connect;
  \<^verbatim>\<open>REDIS_ANNOTATIONS_KEY\<close> names the one Redis hash the server uses, which is the
  \<open>hash\<close> of the model.\<close>

type_synonym process_env = "string \<Rightarrow> string option"

definition env_or_null :: "string option \<Rightarrow> string option" where
  "env_or_null v = (case v of None \<Rightarrow> None | Some s \<Rightarrow> if s = [] then None else Some s)"

definition LIGHTCABLE_WS_URL :: "process_env \<Rightarrow> string option" where
  "LIGHTCABLE_WS_URL env = env_or_null (env ''LIGHTCABLE_WS_URL'')"

definition API_KEY :: "process_env \<Rightarrow> string option" where
  "API_KEY env = env_or_null (env ''API_KEY'')"

section \<open>The state of the process and of its two connections\<close>

datatype ready_state = CONNECTING | OPEN | CLOSING | CLOSED

text \<open>A \<^verbatim>\<open>WebSocket\<close> of the \<^verbatim>\<open>ws\<close> package: the frames sent on it so far, and whether
  \<^verbatim>\<open>send\<close> currently throws (the transport's doing, not the server's).\<close>

record websocket =
  url :: string
  readyState :: ready_state
  sent :: "raw list"
  send_fails :: bool

datatype level = LOG | WARN | ERROR

datatype logarg = Txt string | Val jsval | Exc exn

type_synonym logline = "level \<times> logarg list"

datatype redis_cmd = HGETALL | HGET string | HSET jsval raw | HDEL string

text \<open>
  \<^item> \<open>hash\<close>: the fields of the Redis hash with their values, fields distinct;
  \<^item> \<open>redis_up\<close>: whether a command now succeeds (the same for all the commands of one
    handler run); a command that fails rejects its promise and changes nothing at the
    server;
  \<^item> \<open>redis_calls\<close>: the commands issued so far, failed ones included;
  \<^item> \<open>redis_nonstring\<close>: what the client library does with an \<^verbatim>\<open>hSet\<close> whose field
    argument is not a string (the library is not part of the repository, so this is a
    parameter: given the argument, the value and the hash, the exception or the new hash);
  \<^item> \<open>lcws\<close>: the module variable \<^verbatim>\<open>lcws\<close> (\<open>None\<close> is \<^verbatim>\<open>null\<close>);
  \<^item> \<open>timeouts\<close>: the delays of the pending \<^verbatim>\<open>setTimeout(connectLightcable, d)\<close>, oldest
    first;
  \<^item> \<open>console\<close>: the lines written to the console.
  A handler runs from start to end on one state: the interleaving of two requests at an
  \<^verbatim>\<open>await\<close> is not modelled.
\<close>

record world =
  hash :: "(string \<times> raw) list"
  redis_up :: bool
  redis_calls :: "redis_cmd list"
  redis_nonstring :: "jsval \<Rightarrow> raw \<Rightarrow> (string \<times> raw) list \<Rightarrow> exn + (string \<times> raw) list"
  lcws :: "websocket option"
  timeouts :: "nat list"
  console :: "logline list"

definition console_write :: "level \<Rightarrow> logarg list \<Rightarrow> world \<Rightarrow> world" where
  "console_write l args w = w\<lparr>console := console w @ [(l, args)]\<rparr>"

subsection \<open>The Redis client\<close>

text \<open>Each command returns the reply or the exception of the rejected promise, and the
  state after it.\<close>

definition issue :: "redis_cmd \<Rightarrow> world \<Rightarrow> world" where
  "issue c w = w\<lparr>redis_calls := redis_calls w @ [c]\<rparr>"

definition hGetAll :: "world \<Rightarrow> (exn + (string \<times> raw) list) \<times> world" where
  "hGetAll w =
     (if redis_up w then (Inr (hash w), issue HGETALL w) else (Inl RedisError, issue HGETALL w))"

definition hGet :: "string \<Rightarrow> world \<Rightarrow> (exn + raw option) \<times> world" where
  "hGet f w =
     (if redis_up w then (Inr (map_of (hash w) f), issue (HGET f) w)
      else (Inl RedisError, issue (HGET f) w))"

definition hSet :: "jsval \<Rightarrow> raw \<Rightarrow> world \<Rightarrow> (exn + unit) \<times> world" where
  "hSet field v w =
     (if redis_up w then
        (case field of
           JStr f \<Rightarrow> (Inr (), issue (HSET field v) (w\<lparr>hash := AList.update f v (hash w)\<rparr>))
         | _ \<Rightarrow>
           (case redis_nonstring w field v (hash w) of
              Inl e \<Rightarrow> (Inl e, issue (HSET field v) w)
            | Inr h \<Rightarrow> (Inr (), issue (HSET field v) (w\<lparr>hash := h\<rparr>))))
      else (Inl RedisError, issue (HSET field v) w))"

text \<open>\<^verbatim>\<open>hDel\<close> replies with the number of fields it removed.\<close>

definition hDel :: "string \<Rightarrow> world \<Rightarrow> (exn + nat) \<times> world" where
  "hDel f w =
     (if redis_up w then
        (Inr (if f \<in> fst ` set (hash w) then 1 else 0),
         issue (HDEL f) (w\<lparr>hash := AList.delete f (hash w)\<rparr>))
      else (Inl RedisError, issue (HDEL f) w))"

section \<open>The Lightcable connection\<close>

text \<open>\<^verbatim>\<open>new WebSocket(url)\<close>\<close>

definition new_WebSocket :: "string \<Rightarrow> websocket" where
  "new_WebSocket u = \<lparr>url = u, readyState = CONNECTING, sent = [], send_fails = False\<rparr>"

text \<open>\<^verbatim>\<open>connectLightcable\<close>, and the three listeners it puts on the socket.\<close>

definition connectLightcable :: "process_env \<Rightarrow> world \<Rightarrow> world" where
  "connectLightcable env w =
     (case LIGHTCABLE_WS_URL env of
        None \<Rightarrow> w
      | Some u \<Rightarrow> w\<lparr>lcws := Some (new_WebSocket u)\<rparr>)"

definition lcws_on_open :: "process_env \<Rightarrow> world \<Rightarrow> world" where
  "lcws_on_open env w =
     console_write LOG [Txt ''Connected to Lightcable at'',
       (case LIGHTCABLE_WS_URL env of None \<Rightarrow> Val JNull | Some u \<Rightarrow> Txt u)] w"

definition lcws_on_close :: "world \<Rightarrow> world" where
  "lcws_on_close w =
     (console_write WARN [Txt ''Lightcable WS closed, will attempt reconnect in 2s''] w)
       \<lparr>lcws := None, timeouts := timeouts w @ [2000]\<rparr>"

definition lcws_on_error :: "exn \<Rightarrow> world \<Rightarrow> world" where
  "lcws_on_error e w = console_write ERROR [Txt ''Lightcable WS error'', Exc e] w"

text \<open>The oldest pending timeout fires: it calls \<^verbatim>\<open>connectLightcable\<close>.\<close>

definition timeout_fires :: "process_env \<Rightarrow> world \<Rightarrow> world" where
  "timeout_fires env w =
     (case timeouts w of
        [] \<Rightarrow> w
      | d # ds \<Rightarrow> connectLightcable env (w\<lparr>timeouts := ds\<rparr>))"

text \<open>What the transport reports, and the listeners that run on it. The \<^verbatim>\<open>ws\<close> socket is
  \<^verbatim>\<open>OPEN\<close> when its \<^verbatim>\<open>open\<close> listener runs and \<^verbatim>\<open>CLOSED\<close> when its \<^verbatim>\<open>close\<close> listener runs. It
  reports an error by going \<^verbatim>\<open>CLOSING\<close>, emitting \<^verbatim>\<open>error\<close> and then closing: the \<^verbatim>\<open>error\<close>
  listener is always followed by the \<^verbatim>\<open>close\<close> listener.\<close>

datatype transport_event = Opened | Closed | Errored exn

fun transport_reports :: "process_env \<Rightarrow> transport_event \<Rightarrow> world \<Rightarrow> world" where
  "transport_reports env Opened w =
     lcws_on_open env (w\<lparr>lcws := map_option (\<lambda>ws. ws\<lparr>readyState := OPEN\<rparr>) (lcws w)\<rparr>)"
| "transport_reports env Closed w =
     lcws_on_close (w\<lparr>lcws := map_option (\<lambda>ws. ws\<lparr>readyState := CLOSED\<rparr>) (lcws w)\<rparr>)"
| "transport_reports env (Errored e) w =
     (let w1 = lcws_on_error e
                 (w\<lparr>lcws := map_option (\<lambda>ws. ws\<lparr>readyState := CLOSING\<rparr>) (lcws w)\<rparr>)
      in lcws_on_close (w1\<lparr>lcws := map_option (\<lambda>ws. ws\<lparr>readyState := CLOSED\<rparr>) (lcws w1)\<rparr>))"

text \<open>The reports that end a connection.\<close>

fun closed_or_errored :: "transport_event \<Rightarrow> bool" where
  "closed_or_errored Opened = False"
| "closed_or_errored Closed = True"
| "closed_or_errored (Errored e) = True"

text \<open>One round of the reconnect loop: the transport reports the socket closed or errored,
  and the timeout that the \<^verbatim>\<open>close\<close> listener has set fires.\<close>

definition reconnect_round :: "process_env \<Rightarrow> transport_event \<Rightarrow> world \<Rightarrow> world" where
  "reconnect_round env ev w = timeout_fires env (transport_reports env ev w)"

text \<open>Module start: \<^verbatim>\<open>if (LIGHTCABLE_WS_URL) connectLightcable();\<close>\<close>

definition startup :: "process_env \<Rightarrow> world \<Rightarrow> world" where
  "startup env w = (if LIGHTCABLE_WS_URL env \<noteq> None then connectLightcable env w else w)"

text \<open>\<^verbatim>\<open>ws.send(data)\<close>: the socket with the frame sent, or the exception thrown.\<close>

definition ws_send :: "raw \<Rightarrow> websocket \<Rightarrow> exn + websocket" where
  "ws_send data ws = (if send_fails ws then Inl SendError else Inr (ws\<lparr>sent := sent ws @ [data]\<rparr>))"

text \<open>\<^verbatim>\<open>broadcastToLightcable\<close>. The result is \<open>Inl\<close> when the call throws to its caller.\<close>

definition skip_broadcast :: "jsval \<Rightarrow> world \<Rightarrow> world" where
  "skip_broadcast obj w =
     console_write WARN [Txt ''Lightcable not connected; skip broadcast'', Val obj] w"

definition broadcastToLightcable :: "jsval \<Rightarrow> world \<Rightarrow> exn + world" where
  "broadcastToLightcable obj w =
     (case lcws w of
        None \<Rightarrow> Inr (skip_broadcast obj w)
      | Some ws \<Rightarrow>
          if readyState ws = OPEN then
            (case ws_send (JSON_stringify obj) ws of
               Inl e \<Rightarrow> Inr (console_write WARN [Txt ''LC send err'', Exc e] w)
             | Inr ws' \<Rightarrow> Inr (w\<lparr>lcws := Some ws'\<rparr>))
          else Inr (skip_broadcast obj w))"

section \<open>Requests and responses\<close>

text \<open>What a handler reads of an Express request: \<^verbatim>\<open>req.body\<close> (the parsed JSON body),
  \<^verbatim>\<open>req.params.id\<close>, \<^verbatim>\<open>req.header('x-api-key')\<close> and \<^verbatim>\<open>req.query.api_key\<close>; and what it
  answers: \<^verbatim>\<open>res.status(n).json(v)\<close>, the status being 200 when it is not set.\<close>

record request =
  body :: jsval
  params_id :: string
  header_x_api_key :: "string option"
  query_api_key :: jsval

record response =
  status :: nat
  json :: jsval

text \<open>\<^verbatim>\<open>requireApiKey\<close>: \<open>None\<close> is \<^verbatim>\<open>next()\<close>, \<open>Some r\<close> the response that ends the request.\<close>

definition requireApiKey :: "process_env \<Rightarrow> request \<Rightarrow> response option" where
  "requireApiKey env req =
     (case API_KEY env of
        None \<Rightarrow> None
      | Some k \<Rightarrow>
          let key = js_or (case header_x_api_key req of None \<Rightarrow> JUndefined | Some h \<Rightarrow> JStr h)
                          (query_api_key req)
          in if \<not> truthy key \<or> key \<noteq> JStr k
             then Some \<lparr>status = 401, json = JObj [(''error'', JStr ''Unauthorized'')]\<rparr>
             else None)"

text \<open>The \<^verbatim>\<open>catch\<close> block of every handler.\<close>

definition internal :: "string \<Rightarrow> exn \<Rightarrow> world \<Rightarrow> response \<times> world" where
  "internal msg e w =
     (\<lparr>status = 500, json = JObj [(''error'', JStr ''internal'')]\<rparr>,
      console_write ERROR [Txt msg, Exc e] w)"

text \<open>Destructuring \<^verbatim>\<open>const { ... } = req.body\<close> throws a \<^verbatim>\<open>TypeError\<close> when the body is
  \<^verbatim>\<open>undefined\<close> or \<^verbatim>\<open>null\<close>.\<close>

definition destructurable :: "jsval \<Rightarrow> bool" where
  "destructurable v = (v \<noteq> JUndefined \<and> v \<noteq> JNull)"

section \<open>The handlers\<close>

text \<open>The record of one hash entry in \<^verbatim>\<open>GET /annotations\<close>: \<^verbatim>\<open>{ id, ...obj }\<close>, or
  \<^verbatim>\<open>null\<close> when \<^verbatim>\<open>JSON.parse\<close> throws.\<close>

definition entry_record :: "string \<times> raw \<Rightarrow> jsval" where
  "entry_record e =
     (case JSON_parse (snd e) of
        Inl err \<Rightarrow> JNull
      | Inr obj \<Rightarrow> JObj (spread obj [(''id'', JStr (fst e))]))"

text \<open>\<^verbatim>\<open>app.get('/annotations')\<close>: \<^verbatim>\<open>Object.keys(all).map(...)\<close> visits each field with its
  value. The list follows the order of the hash; no claim depends on the order in which
  JavaScript enumerates the keys.\<close>

definition get_annotations :: "request \<Rightarrow> world \<Rightarrow> response \<times> world" where
  "get_annotations req w =
     (case hGetAll w of
        (Inl e, w1) \<Rightarrow> internal ''GET /annotations err'' e w1
      | (Inr all, w1) \<Rightarrow>
          (\<lparr>status = 200, json = JArr (filter truthy (map entry_record all))\<rparr>, w1))"

text \<open>\<^verbatim>\<open>app.post('/annotations')\<close>; \<open>now\<close> is what \<^verbatim>\<open>Date.now()\<close> returns.\<close>

definition post_annotations :: "int \<Rightarrow> request \<Rightarrow> world \<Rightarrow> response \<times> world" where
  "post_annotations now req w =
     (if \<not> destructurable (body req) then internal ''POST /annotations err'' TypeError w
      else
        let id = js_get (body req) ''id'';
            lngLat = js_get (body req) ''lngLat'';
            clientId = js_get (body req) ''clientId''
        in
          if \<not> truthy id \<or> \<not> isArray lngLat \<or> js_length lngLat < 2 then
            (\<lparr>status = 400,
              json = JObj [(''error'', JStr ''invalid payload, need id and lngLat'')]\<rparr>, w)
          else
            let obj = JObj [(''lngLat'', lngLat),
                            (''updatedAt'', JNum (Finite (of_int now))),
                            (''clientId'', js_or clientId JNull)]
            in
              (case hSet id (JSON_stringify obj) w of
                 (Inl e, w1) \<Rightarrow> internal ''POST /annotations err'' e w1
               | (Inr u, w1) \<Rightarrow>
                   (case broadcastToLightcable
                           (JObj [(''type'', JStr ''add''), (''id'', id), (''lngLat'', lngLat),
                                  (''clientId'', js_or clientId JNull)]) w1 of
                      Inl e \<Rightarrow> internal ''POST /annotations err'' e w1
                    | Inr w2 \<Rightarrow>
                        (\<lparr>status = 201, json = JObj (spread obj [(''id'', id)])\<rparr>, w2))))"

text \<open>\<^verbatim>\<open>app.put('/annotations/:id')\<close>\<close>

definition put_annotations :: "int \<Rightarrow> request \<Rightarrow> world \<Rightarrow> response \<times> world" where
  "put_annotations now req w =
     (let id = params_id req in
      if \<not> destructurable (body req) then internal ''PUT /annotations/:id err'' TypeError w
      else
        let lngLat = js_get (body req) ''lngLat'';
            clientId = js_get (body req) ''clientId''
        in
          if \<not> isArray lngLat \<or> js_length lngLat < 2 then
            (\<lparr>status = 400, json = JObj [(''error'', JStr ''invalid payload, need lngLat'')]\<rparr>, w)
          else
            (case hGet id w of
               (Inl e, w1) \<Rightarrow> internal ''PUT /annotations/:id err'' e w1
             | (Inr existingRaw, w1) \<Rightarrow>
                 let obj = JObj [(''lngLat'', lngLat),
                                 (''updatedAt'', JNum (Finite (of_int now))),
                                 (''clientId'', js_or clientId JNull)]
                 in
                   (case hSet (JStr id) (JSON_stringify obj) w1 of
                      (Inl e, w2) \<Rightarrow> internal ''PUT /annotations/:id err'' e w2
                    | (Inr u, w2) \<Rightarrow>
                        (case broadcastToLightcable
                                (JObj [(''type'', JStr ''update''), (''id'', JStr id),
                                       (''lngLat'', lngLat),
                                       (''clientId'', js_or clientId JNull)]) w2 of
                           Inl e \<Rightarrow> internal ''PUT /annotations/:id err'' e w2
                         | Inr w3 \<Rightarrow>
                             (\<lparr>status = 200,
                               json = JObj (AList.update ''existed''
                                 (JBool (case existingRaw of None \<Rightarrow> False
                                         | Some s \<Rightarrow> raw_truthy s))
                                 (spread obj [(''id'', JStr id)]))\<rparr>, w3)))))"

text \<open>\<^verbatim>\<open>app.delete('/annotations/:id')\<close>\<close>

definition delete_annotations :: "request \<Rightarrow> world \<Rightarrow> response \<times> world" where
  "delete_annotations req w =
     (let id = params_id req in
      case hDel id w of
        (Inl e, w1) \<Rightarrow> internal ''DELETE /annotations/:id err'' e w1
      | (Inr removed, w1) \<Rightarrow>
          (case broadcastToLightcable
                  (JObj [(''type'', JStr ''remove''), (''id'', JStr id), (''clientId'', JNull)])
                  w1 of
             Inl e \<Rightarrow> internal ''DELETE /annotations/:id err'' e w1
           | Inr w2 \<Rightarrow>
               (\<lparr>status = 200,
                 json = JObj [(''id'', JStr id), (''removed'', JBool (removed > 0))]\<rparr>, w2)))"

text \<open>The routes: \<^verbatim>\<open>requireApiKey\<close> runs before each of the four handlers.\<close>

definition guarded ::
  "process_env \<Rightarrow> (request \<Rightarrow> world \<Rightarrow> response \<times> world) \<Rightarrow> request \<Rightarrow> world \<Rightarrow> response \<times> world"
where
  "guarded env handler req w =
     (case requireApiKey env req of Some r \<Rightarrow> (r, w) | None \<Rightarrow> handler req w)"

section \<open>Predicates on stores and values\<close>

text \<open>The object both write handlers store:
  \<^verbatim>\<open>{ lngLat, updatedAt: Date.now(), clientId: clientId || null }\<close>.\<close>

abbreviation stored_obj :: "jsval \<Rightarrow> int \<Rightarrow> jsval \<Rightarrow> jsval" where
  "stored_obj lngLat now clientId \<equiv>
     JObj [(''lngLat'', lngLat), (''updatedAt'', JNum (Finite (of_int now))),
           (''clientId'', js_or clientId JNull)]"

text \<open>A payload of the form the two write handlers store: the serialisation of
  \<^verbatim>\<open>{ lngLat, updatedAt, clientId }\<close>.\<close>

fun written :: "raw \<Rightarrow> bool" where
  "written (Json (JObj [(k1, l), (k2, t), (k3, c)])) =
     (k1 = ''lngLat'' \<and> k2 = ''updatedAt'' \<and> k3 = ''clientId'')"
| "written r = False"

text \<open>No entry under another field is listed under the id \<open>i\<close>: the record that
  \<^verbatim>\<open>GET /annotations\<close> makes of it, if any, has another \<^verbatim>\<open>id\<close>. It holds of every entry
  whose payload has no \<^verbatim>\<open>id\<close> member of its own, so of all that the server writes, and of
  every entry whose payload is malformed.\<close>

definition no_other_lists_as :: "string \<Rightarrow> world \<Rightarrow> bool" where
  "no_other_lists_as i w =
     list_all (\<lambda>e. fst e = i \<or> js_get (entry_record e) ''id'' \<noteq> JStr i) (hash w)"

text \<open>A store of the server's own writes: the fields of the hash are distinct, as in any
  Redis hash, and every value is a payload the write handlers have stored. The empty hash
  is one, the handlers keep it one (lemmas \<open>owned_store_post\<close> to \<open>owned_store_get\<close>
  below), and in one no entry is listed under another field's id (lemma
  \<open>owned_store_no_other\<close>).\<close>

definition owned_store :: "world \<Rightarrow> bool" where
  "owned_store w = (distinct (map fst (hash w)) \<and> list_all written (map snd (hash w)))"

text \<open>A value that JSON represents exactly: no \<^verbatim>\<open>undefined\<close> and no non-finite number in
  it.\<close>

fun finite_json :: "jsval \<Rightarrow> bool" where
  "finite_json JUndefined = False"
| "finite_json JNull = True"
| "finite_json (JBool b) = True"
| "finite_json (JNum (Finite q)) = True"
| "finite_json (JNum PosInfinity) = False"
| "finite_json (JNum NegInfinity) = False"
| "finite_json (JNum NaN) = False"
| "finite_json (JStr s) = True"
| "finite_json (JArr xs) = list_all finite_json xs"
| "finite_json (JObj kvs) = list_all (\<lambda>(k, x). finite_json x) kvs"

text \<open>A string that \<^verbatim>\<open>JSON.parse\<close> accepts.\<close>

fun is_json :: "raw \<Rightarrow> bool" where
  "is_json (Json v) = True"
| "is_json (NotJson s) = False"

text \<open>The test of \<^verbatim>\<open>broadcastToLightcable\<close>: \<^verbatim>\<open>lcws && lcws.readyState === WebSocket.OPEN\<close>.\<close>

definition connected :: "world \<Rightarrow> bool" where
  "connected w = (case lcws w of None \<Rightarrow> False | Some ws \<Rightarrow> readyState ws = OPEN)"

subsection \<open>Sample states and requests\<close>

definition quiet_world :: world where
  "quiet_world =
     \<lparr>hash = [], redis_up = True, redis_calls = [],
      redis_nonstring = (\<lambda>f v h. Inl TypeError),
      lcws = None, timeouts = [], console = []\<rparr>"

definition open_socket :: websocket where
  "open_socket =
     \<lparr>url = ''ws://localhost:8088/402'', readyState = OPEN, sent = [], send_fails = False\<rparr>"

definition request_with :: "string \<Rightarrow> jsval \<Rightarrow> request" where
  "request_with i b =
     \<lparr>body = b, params_id = i, header_x_api_key = None, query_api_key = JUndefined\<rparr>"

definition foreign_world :: world where
  "foreign_world = quiet_world\<lparr>hash := [(''b1'', Json (JObj [(''id'', JStr ''a1'')]))]\<rparr>"

definition create_a1 :: request where
  "create_a1 =
     request_with [] (JObj [(''id'', JStr ''a1''),
                            (''lngLat'', JArr [JNum (Finite 10), JNum (Finite 20)])])"

definition create_overflow :: request where
  "create_overflow =
     request_with [] (JObj [(''id'', JStr ''a1''),
                            (''lngLat'', JArr [JNum PosInfinity, JNum (Finite 0)])])"

definition stale_world :: world where
  "stale_world =
     quiet_world\<lparr>hash := [(''a1'', Json (JObj [(''lngLat'', JArr [JNum (Finite 1), JNum (Finite 2)]),
                                                (''updatedAt'', JNum (Finite 5)),
                                                (''clientId'', JStr ''c0'')]))]\<rparr>"

definition mixed_world :: world where
  "mixed_world =
     quiet_world\<lparr>hash := [(''k'', Json JNull), (''m'', NotJson ''not json''),
                          (''b1'', Json (JObj [(''lngLat'', JArr [JNum (Finite 1), JNum (Finite 2)]),
                                               (''updatedAt'', JNum (Finite 5)),
                                               (''clientId'', JNull)]))]\<rparr>"

definition blank_value_world :: world where
  "blank_value_world = quiet_world\<lparr>hash := [(''a1'', NotJson [])]\<rparr>"

definition update_no_id :: request where
  "update_no_id =
     request_with [] (JObj [(''lngLat'', JArr [JNum (Finite 11), JNum (Finite 21)])])"

definition create_no_id :: request where
  "create_no_id =
     request_with [] (JObj [(''id'', JStr []),
                            (''lngLat'', JArr [JNum (Finite 11), JNum (Finite 21)])])"

definition update_a1 :: request where
  "update_a1 =
     request_with ''a1'' (JObj [(''lngLat'', JArr [JNum (Finite 11), JNum (Finite 21)])])"

definition create_a1_moved :: request where
  "create_a1_moved =
     request_with [] (JObj [(''id'', JStr ''a1''),
                            (''lngLat'', JArr [JNum (Finite 11), JNum (Finite 21)])])"

definition live_world :: world where
  "live_world = quiet_world\<lparr>lcws := Some open_socket\<rparr>"

definition create_by_7 :: request where
  "create_by_7 =
     request_with [] (JObj [(''id'', JStr ''a1''),
                            (''lngLat'', JArr [JNum (Finite 10), JNum (Finite 20)]),
                            (''clientId'', JNum (Finite 7))])"

definition broken_world :: world where
  "broken_world = quiet_world\<lparr>lcws := Some (open_socket\<lparr>send_fails := True\<rparr>)\<rparr>"

definition create_blank_client :: request where
  "create_blank_client =
     request_with ''a1'' (JObj [(''id'', JStr ''a1''),
                               (''lngLat'', JArr [JNum (Finite 10), JNum (Finite 20)]),
                               (''clientId'', JStr [])])"

definition lightcable_env :: process_env where
  "lightcable_env =
     (\<lambda>k. if k = ''LIGHTCABLE_WS_URL'' then Some ''ws://localhost:8088/402'' else None)"

section \<open>Auxiliary lemmas\<close>

lemmas redis_defs = hGetAll_def hGet_def hSet_def hDel_def issue_def

lemmas forwarder_defs =
  broadcastToLightcable_def skip_broadcast_def ws_send_def console_write_def

lemmas sample_defs =
  quiet_world_def open_socket_def request_with_def foreign_world_def
  create_a1_def create_overflow_def stale_world_def mixed_world_def update_a1_def
  create_a1_moved_def live_world_def create_by_7_def broken_world_def
  create_blank_client_def lightcable_env_def blank_value_world_def update_no_id_def
  create_no_id_def

lemma to_json_finite: "finite_json v \<Longrightarrow> to_json v = v"
proof (induction v rule: to_json.induct)
  case (5 xs)
  have "map (\<lambda>x. if x = JUndefined then JNull else to_json x) xs = xs"
  proof (rule map_idI)
    fix x assume x: "x \<in> set xs"
    with 5 have "finite_json x" by (simp add: list_all_iff)
    then have "x \<noteq> JUndefined" by auto
    with 5 x \<open>finite_json x\<close> show "(if x = JUndefined then JNull else to_json x) = x" by simp
  qed
  then show ?case by simp
next
  case (6 kvs)
  have all: "\<forall>(k, x)\<in>set kvs. finite_json x" using 6 by (simp add: list_all_iff)
  have f: "filter (\<lambda>(k, x). x \<noteq> JUndefined) kvs = kvs"
    using all by (auto simp: filter_id_conv)
  have "map (\<lambda>(k, x). (k, to_json x)) kvs = kvs"
  proof (rule map_idI)
    fix p assume p: "p \<in> set kvs"
    obtain k x where kx: "p = (k, x)" by (cases p)
    with p all have fx: "finite_json x" by auto
    then have "x \<noteq> JUndefined" by auto
    with 6 p kx fx have "to_json x = x" by (simp add: f)
    with kx show "(case p of (k, x) \<Rightarrow> (k, to_json x)) = p" by simp
  qed
  with f show ?case by simp
qed simp_all

lemma broadcast_total: "\<exists>w'. broadcastToLightcable ev w = Inr w'"
  by (simp add: forwarder_defs split: option.split)

lemma broadcast_keeps:
  assumes "broadcastToLightcable ev w = Inr w'"
  shows "hash w' = hash w \<and> redis_up w' = redis_up w \<and> redis_calls w' = redis_calls w
         \<and> redis_nonstring w' = redis_nonstring w \<and> timeouts w' = timeouts w"
  using assms by (auto simp: forwarder_defs split: option.splits if_splits)

lemmas handler_eval =
  post_annotations_def put_annotations_def delete_annotations_def get_annotations_def
  destructurable_def redis_defs forwarder_defs internal_def entry_record_def spread_def
  JSON_stringify_def js_or_def Let_def

lemma js_get_destructurable: "js_get b k \<noteq> JUndefined \<Longrightarrow> destructurable b"
  by (cases b) (auto simp: destructurable_def)

lemma js_or_defined: "js_or c JNull \<noteq> JUndefined"
  by (cases c) (auto simp: js_or_def)

lemma to_json_undefined: "to_json v = JUndefined \<longleftrightarrow> v = JUndefined"
  by (induction v rule: to_json.induct) auto

lemma stringify_stored:
  "JSON_stringify (stored_obj (JArr xs) now c) =
     Json (JObj [(''lngLat'', to_json (JArr xs)), (''updatedAt'', JNum (Finite (of_int now))),
                 (''clientId'', to_json (js_or c JNull))])"
  by (simp add: JSON_stringify_def js_or_defined)

lemma written_stored: "written (JSON_stringify (stored_obj (JArr xs) now c))"
  by (simp add: stringify_stored)

lemma entry_record_written:
  assumes "written raw"
  shows "\<exists>l t c. raw = Json (JObj [(''lngLat'', l), (''updatedAt'', t), (''clientId'', c)])
           \<and> entry_record (k, raw) =
               JObj [(''id'', JStr k), (''lngLat'', l), (''updatedAt'', t), (''clientId'', c)]"
  using assms by (cases raw rule: written.cases) (auto simp: entry_record_def spread_def)

lemma entry_record_written_id:
  "written raw \<Longrightarrow> truthy (entry_record (k, raw)) \<and> js_get (entry_record (k, raw)) ''id'' = JStr k"
  using entry_record_written [of raw k] by auto

lemma filter_id_absent:
  "i \<notin> fst ` set h \<Longrightarrow>
   list_all (\<lambda>e. fst e = i \<or> js_get (entry_record e) ''id'' \<noteq> JStr i) h \<Longrightarrow>
     filter (\<lambda>r. js_get r ''id'' = JStr i) (filter truthy (map entry_record h)) = []"
proof (induction h)
  case Nil
  then show ?case by simp
next
  case (Cons e h)
  from Cons.prems have "fst e \<noteq> i" by auto
  with Cons.prems have "js_get (entry_record e) ''id'' \<noteq> JStr i" by simp
  with Cons show ?case by auto
qed

lemma filter_id_update:
  assumes p: "truthy (entry_record (i, p))" "js_get (entry_record (i, p)) ''id'' = JStr i"
  shows "distinct (map fst h) \<Longrightarrow>
         list_all (\<lambda>e. fst e = i \<or> js_get (entry_record e) ''id'' \<noteq> JStr i) h \<Longrightarrow>
     filter (\<lambda>r. js_get r ''id'' = JStr i) (filter truthy (map entry_record (AList.update i p h)))
       = [entry_record (i, p)]"
proof (induction h)
  case Nil
  with p show ?case by simp
next
  case (Cons e h)
  obtain k raw where e: "e = (k, raw)" by (cases e)
  show ?case
  proof (cases "k = i")
    case True
    with Cons.prems e have "i \<notin> fst ` set h"
      "list_all (\<lambda>e. fst e = i \<or> js_get (entry_record e) ''id'' \<noteq> JStr i) h" by auto
    from filter_id_absent [OF this] p True e
    show ?thesis by simp
  next
    case False
    with Cons.prems e have "js_get (entry_record (k, raw)) ''id'' \<noteq> JStr i" by simp
    with False e Cons show ?thesis by auto
  qed
qed

lemma owned_store_no_other: "owned_store w \<Longrightarrow> no_other_lists_as i w"
proof -
  have "list_all written (map snd h) \<Longrightarrow>
        list_all (\<lambda>e. fst e = i \<or> js_get (entry_record e) ''id'' \<noteq> JStr i) h" for h
  proof (induction h)
    case Nil
    then show ?case by simp
  next
    case (Cons e h)
    obtain k raw where e: "e = (k, raw)" by (cases e)
    with Cons.prems have "written raw" by simp
    with entry_record_written_id [of raw k] e Cons show ?case by auto
  qed
  then show "owned_store w \<Longrightarrow> no_other_lists_as i w"
    by (simp add: owned_store_def no_other_lists_as_def)
qed

lemma post_accepts:
  assumes "redis_up w" "js_get (body req) ''id'' = JStr i" "i \<noteq> []"
      and "js_get (body req) ''lngLat'' = JArr xs" "2 \<le> length xs"
  shows "status (fst (post_annotations now req w)) = 201
       \<and> json (fst (post_annotations now req w)) =
           JObj (spread (stored_obj (JArr xs) now (js_get (body req) ''clientId'')) [(''id'', JStr i)])
       \<and> hash (snd (post_annotations now req w)) =
           AList.update i (JSON_stringify (stored_obj (JArr xs) now (js_get (body req) ''clientId''))) (hash w)
       \<and> redis_up (snd (post_annotations now req w))"
proof -
  have d: "destructurable (body req)" using assms(2) by (intro js_get_destructurable [of _ "''id''"]) simp
  let ?w1 = "issue (HSET (JStr i) (JSON_stringify (stored_obj (JArr xs) now (js_get (body req) ''clientId''))))
      (w\<lparr>hash := AList.update i (JSON_stringify (stored_obj (JArr xs) now (js_get (body req) ''clientId''))) (hash w)\<rparr>)"
  let ?ev = "JObj [(''type'', JStr ''add''), (''id'', JStr i), (''lngLat'', JArr xs),
                   (''clientId'', js_or (js_get (body req) ''clientId'') JNull)]"
  obtain w2 where w2: "broadcastToLightcable ?ev ?w1 = Inr w2" using broadcast_total by blast
  from broadcast_keeps [OF w2] have k: "hash w2 = hash ?w1" "redis_up w2 = redis_up ?w1" by simp_all
  have "post_annotations now req w =
      (\<lparr>status = 201, json = JObj (spread (stored_obj (JArr xs) now (js_get (body req) ''clientId'')) [(''id'', JStr i)])\<rparr>, w2)"
    using assms d w2 by (simp add: post_annotations_def hSet_def Let_def)
  with k assms(1) show ?thesis by (simp add: issue_def)
qed

lemma get_lists:
  assumes "redis_up w"
  shows "get_annotations req w =
    (\<lparr>status = 200, json = JArr (filter truthy (map entry_record (hash w)))\<rparr>, issue HGETALL w)"
  using assms by (simp add: get_annotations_def hGetAll_def)

lemma post_201:
  assumes "status (fst (post_annotations now req w)) = 201"
  shows "redis_up w \<and> destructurable (body req) \<and> truthy (js_get (body req) ''id'')
       \<and> isArray (js_get (body req) ''lngLat'') \<and> 2 \<le> js_length (js_get (body req) ''lngLat'')"
  using assms
  by (auto simp: post_annotations_def hSet_def internal_def Let_def
           split: if_splits prod.splits sum.splits jsval.splits)

lemma put_200:
  assumes "status (fst (put_annotations now req w)) = 200"
  shows "redis_up w \<and> destructurable (body req)
       \<and> isArray (js_get (body req) ''lngLat'') \<and> 2 \<le> js_length (js_get (body req) ''lngLat'')"
  using assms
  by (auto simp: put_annotations_def hSet_def hGet_def internal_def Let_def issue_def
           split: if_splits prod.splits sum.splits jsval.splits)

lemma isArray_JArr: "isArray v \<Longrightarrow> \<exists>xs. v = JArr xs"
  by (cases v) auto

lemma put_accepts:
  assumes "redis_up w" "destructurable (body req)"
      and "js_get (body req) ''lngLat'' = JArr xs" "2 \<le> length xs"
  shows "status (fst (put_annotations now req w)) = 200
       \<and> json (fst (put_annotations now req w)) =
           JObj (AList.update ''existed''
                  (JBool (case map_of (hash w) (params_id req) of None \<Rightarrow> False | Some s \<Rightarrow> raw_truthy s))
                  (spread (stored_obj (JArr xs) now (js_get (body req) ''clientId''))
                     [(''id'', JStr (params_id req))]))
       \<and> hash (snd (put_annotations now req w)) =
           AList.update (params_id req)
             (JSON_stringify (stored_obj (JArr xs) now (js_get (body req) ''clientId''))) (hash w)
       \<and> redis_up (snd (put_annotations now req w))
       \<and> redis_calls (snd (put_annotations now req w)) =
           redis_calls w @ [HGET (params_id req), HSET (JStr (params_id req))
             (JSON_stringify (stored_obj (JArr xs) now (js_get (body req) ''clientId'')))]"
proof -
  let ?p = "JSON_stringify (stored_obj (JArr xs) now (js_get (body req) ''clientId''))"
  let ?w2 = "snd (hSet (JStr (params_id req)) ?p (snd (hGet (params_id req) w)))"
  let ?ev = "JObj [(''type'', JStr ''update''), (''id'', JStr (params_id req)), (''lngLat'', JArr xs),
                   (''clientId'', js_or (js_get (body req) ''clientId'') JNull)]"
  obtain w3 where w3: "broadcastToLightcable ?ev ?w2 = Inr w3" using broadcast_total by blast
  from broadcast_keeps [OF w3] have k: "hash w3 = hash ?w2" "redis_up w3 = redis_up ?w2" "redis_calls w3 = redis_calls ?w2"
    by simp_all
  have "put_annotations now req w =
      (\<lparr>status = 200, json = JObj (AList.update ''existed''
                  (JBool (case map_of (hash w) (params_id req) of None \<Rightarrow> False | Some s \<Rightarrow> raw_truthy s))
                  (spread (stored_obj (JArr xs) now (js_get (body req) ''clientId''))
                     [(''id'', JStr (params_id req))]))\<rparr>, w3)"
    using assms w3 by (simp add: put_annotations_def hSet_def hGet_def issue_def Let_def)
  with k assms(1) show ?thesis by (simp add: hSet_def hGet_def issue_def)
qed

lemma post_201_calls:
  assumes "status (fst (post_annotations now req w)) = 201"
  shows "redis_calls (snd (post_annotations now req w)) =
           redis_calls w @ [HSET (js_get (body req) ''id'')
              (JSON_stringify (stored_obj (js_get (body req) ''lngLat'') now (js_get (body req) ''clientId'')))]
       \<and> js_get (json (fst (post_annotations now req w))) ''updatedAt'' = JNum (Finite (of_int now))"
proof -
  let ?id = "js_get (body req) ''id''"
  let ?p = "JSON_stringify (stored_obj (js_get (body req) ''lngLat'') now (js_get (body req) ''clientId''))"
  let ?ev = "JObj [(''type'', JStr ''add''), (''id'', ?id), (''lngLat'', js_get (body req) ''lngLat''),
                   (''clientId'', js_or (js_get (body req) ''clientId'') JNull)]"
  note v = post_201 [OF assms]
  obtain r w1 where h: "hSet ?id ?p w = (r, w1)" by (cases "hSet ?id ?p w")
  have c1: "redis_calls w1 = redis_calls w @ [HSET ?id ?p]"
    using h by (auto simp: hSet_def issue_def split: if_splits jsval.splits sum.splits)
  obtain w2 where w2: "broadcastToLightcable ?ev w1 = Inr w2" using broadcast_total by blast
  from broadcast_keeps [OF w2] have k: "redis_calls w2 = redis_calls w1" by simp
  have r: "r = Inr ()"
    using assms v h by (cases r) (auto simp: post_annotations_def Let_def internal_def)
  have "post_annotations now req w =
      (\<lparr>status = 201, json = JObj (spread (stored_obj (js_get (body req) ''lngLat'') now (js_get (body req) ''clientId''))
           [(''id'', ?id)])\<rparr>, w2)"
    using v h r w2 by (simp add: post_annotations_def Let_def)
  with k c1 show ?thesis by (simp add: spread_def)
qed



lemma entry_record_filter:
  "filter truthy (map entry_record h) = map entry_record (filter (\<lambda>e. is_json (snd e)) h)"
proof (induction h)
  case Nil
  then show ?case by simp
next
  case (Cons e h)
  obtain k raw where e: "e = (k, raw)" by (cases e)
  with Cons show ?case by (cases raw) (simp_all add: entry_record_def)
qed

lemma delete_200:
  assumes "status (fst (delete_annotations req w)) = 200"
  shows "redis_up w"
  using assms
  by (auto simp: delete_annotations_def hDel_def internal_def Let_def split: if_splits)

lemma post_201_world:
  assumes "status (fst (post_annotations now req w)) = 201"
  shows "broadcastToLightcable
           (JObj [(''type'', JStr ''add''), (''id'', js_get (body req) ''id''),
                  (''lngLat'', js_get (body req) ''lngLat''),
                  (''clientId'', js_or (js_get (body req) ''clientId'') JNull)])
           (snd (hSet (js_get (body req) ''id'')
                      (JSON_stringify (stored_obj (js_get (body req) ''lngLat'') now
                                                  (js_get (body req) ''clientId''))) w))
         = Inr (snd (post_annotations now req w))"
proof -
  let ?id = "js_get (body req) ''id''"
  let ?p = "JSON_stringify (stored_obj (js_get (body req) ''lngLat'') now (js_get (body req) ''clientId''))"
  let ?ev = "JObj [(''type'', JStr ''add''), (''id'', ?id), (''lngLat'', js_get (body req) ''lngLat''),
                   (''clientId'', js_or (js_get (body req) ''clientId'') JNull)]"
  note v = post_201 [OF assms]
  obtain r w1 where h: "hSet ?id ?p w = (r, w1)" by (cases "hSet ?id ?p w")
  obtain w2 where w2: "broadcastToLightcable ?ev w1 = Inr w2" using broadcast_total by blast
  have r: "r = Inr ()"
    using assms v h by (cases r) (auto simp: post_annotations_def Let_def internal_def)
  have "snd (post_annotations now req w) = w2"
    using v h r w2 by (simp add: post_annotations_def Let_def)
  with w2 h show ?thesis by simp
qed

lemma put_200_world:
  assumes "status (fst (put_annotations now req w)) = 200"
  shows "broadcastToLightcable
           (JObj [(''type'', JStr ''update''), (''id'', JStr (params_id req)),
                  (''lngLat'', js_get (body req) ''lngLat''),
                  (''clientId'', js_or (js_get (body req) ''clientId'') JNull)])
           (snd (hSet (JStr (params_id req))
                      (JSON_stringify (stored_obj (js_get (body req) ''lngLat'') now
                                                  (js_get (body req) ''clientId'')))
                      (snd (hGet (params_id req) w))))
         = Inr (snd (put_annotations now req w))"
proof -
  let ?id = "params_id req"
  let ?p = "JSON_stringify (stored_obj (js_get (body req) ''lngLat'') now (js_get (body req) ''clientId''))"
  let ?ev = "JObj [(''type'', JStr ''update''), (''id'', JStr ?id), (''lngLat'', js_get (body req) ''lngLat''),
                   (''clientId'', js_or (js_get (body req) ''clientId'') JNull)]"
  note v = put_200 [OF assms]
  let ?w2 = "snd (hSet (JStr ?id) ?p (snd (hGet ?id w)))"
  obtain w3 where w3: "broadcastToLightcable ?ev ?w2 = Inr w3" using broadcast_total by blast
  have "snd (put_annotations now req w) = w3"
    using v w3 by (simp add: put_annotations_def hSet_def hGet_def issue_def Let_def)
  with w3 show ?thesis by simp
qed

lemma delete_200_world:
  assumes "status (fst (delete_annotations req w)) = 200"
  shows "broadcastToLightcable
           (JObj [(''type'', JStr ''remove''), (''id'', JStr (params_id req)), (''clientId'', JNull)])
           (snd (hDel (params_id req) w))
         = Inr (snd (delete_annotations req w))"
proof -
  let ?ev = "JObj [(''type'', JStr ''remove''), (''id'', JStr (params_id req)), (''clientId'', JNull)]"
  note v = delete_200 [OF assms]
  let ?w1 = "snd (hDel (params_id req) w)"
  obtain w2 where w2: "broadcastToLightcable ?ev ?w1 = Inr w2" using broadcast_total by blast
  have "snd (delete_annotations req w) = w2"
    using v w2 by (simp add: delete_annotations_def hDel_def Let_def)
  with w2 show ?thesis by simp
qed

text \<open>A request that is not answered with success hands nothing to the forwarder.\<close>

lemma post_quiet:
  assumes "status (fst (post_annotations now req w)) \<noteq> 201"
  shows "lcws (snd (post_annotations now req w)) = lcws w"
proof -
  let ?id = "js_get (body req) ''id''"
  let ?p = "JSON_stringify (stored_obj (js_get (body req) ''lngLat'') now (js_get (body req) ''clientId''))"
  let ?ev = "JObj [(''type'', JStr ''add''), (''id'', ?id), (''lngLat'', js_get (body req) ''lngLat''),
                   (''clientId'', js_or (js_get (body req) ''clientId'') JNull)]"
  obtain r w1 where h: "hSet ?id ?p w = (r, w1)" by (cases "hSet ?id ?p w")
  have l: "lcws w1 = lcws w"
    using h by (auto simp: hSet_def issue_def split: if_splits jsval.splits sum.splits)
  obtain w2 where w2: "broadcastToLightcable ?ev w1 = Inr w2" using broadcast_total by blast
  show ?thesis
    using assms h l w2
    by (cases r) (auto simp: post_annotations_def Let_def internal_def console_write_def split: if_splits)
qed


lemma put_quiet:
  assumes "status (fst (put_annotations now req w)) \<noteq> 200"
  shows "lcws (snd (put_annotations now req w)) = lcws w"
proof -
  let ?id = "params_id req"
  let ?p = "JSON_stringify (stored_obj (js_get (body req) ''lngLat'') now (js_get (body req) ''clientId''))"
  let ?ev = "JObj [(''type'', JStr ''update''), (''id'', JStr ?id), (''lngLat'', js_get (body req) ''lngLat''),
                   (''clientId'', js_or (js_get (body req) ''clientId'') JNull)]"
  obtain g w1 where g: "hGet ?id w = (g, w1)" by (cases "hGet ?id w")
  have l1: "lcws w1 = lcws w" using g by (auto simp: hGet_def issue_def split: if_splits)
  obtain r w2 where h: "hSet (JStr ?id) ?p w1 = (r, w2)" by (cases "hSet (JStr ?id) ?p w1")
  have l2: "lcws w2 = lcws w1"
    using h by (auto simp: hSet_def issue_def split: if_splits)
  obtain w3 where w3: "broadcastToLightcable ?ev w2 = Inr w3" using broadcast_total by blast
  show ?thesis
    using assms g h l1 l2 w3
    by (cases g; cases r)
       (auto simp: put_annotations_def Let_def internal_def console_write_def split: if_splits)
qed

lemma delete_quiet:
  assumes "status (fst (delete_annotations req w)) \<noteq> 200"
  shows "lcws (snd (delete_annotations req w)) = lcws w"
proof -
  let ?ev = "JObj [(''type'', JStr ''remove''), (''id'', JStr (params_id req)), (''clientId'', JNull)]"
  obtain r w1 where h: "hDel (params_id req) w = (r, w1)" by (cases "hDel (params_id req) w")
  have l: "lcws w1 = lcws w" using h by (auto simp: hDel_def issue_def split: if_splits)
  obtain w2 where w2: "broadcastToLightcable ?ev w1 = Inr w2" using broadcast_total by blast
  show ?thesis
    using assms h l w2
    by (cases r) (auto simp: delete_annotations_def Let_def internal_def console_write_def)
qed

lemma hSet_lcws:
  "hSet f v (w\<lparr>lcws := l\<rparr>) = (fst (hSet f v w), (snd (hSet f v w))\<lparr>lcws := l\<rparr>)"
  by (simp add: hSet_def issue_def split: jsval.split sum.split)

lemma hGet_lcws:
  "hGet f (w\<lparr>lcws := l\<rparr>) = (fst (hGet f w), (snd (hGet f w))\<lparr>lcws := l\<rparr>)"
  by (simp add: hGet_def issue_def)

lemma hDel_lcws:
  "hDel f (w\<lparr>lcws := l\<rparr>) = (fst (hDel f w), (snd (hDel f w))\<lparr>lcws := l\<rparr>)"
  by (simp add: hDel_def issue_def)

lemma internal_fst: "fst (internal msg e w) = \<lparr>status = 500, json = JObj [(''error'', JStr ''internal'')]\<rparr>"
  by (simp add: internal_def)

lemma internal_hash: "hash (snd (internal msg e w)) = hash w"
  by (simp add: internal_def console_write_def)

lemma post_ignores_lcws:
  "fst (post_annotations now req (w\<lparr>lcws := l\<rparr>)) = fst (post_annotations now req w)
   \<and> hash (snd (post_annotations now req (w\<lparr>lcws := l\<rparr>))) = hash (snd (post_annotations now req w))"
proof -
  let ?id = "js_get (body req) ''id''"
  let ?p = "JSON_stringify (stored_obj (js_get (body req) ''lngLat'') now (js_get (body req) ''clientId''))"
  let ?ev = "JObj [(''type'', JStr ''add''), (''id'', ?id), (''lngLat'', js_get (body req) ''lngLat''),
                   (''clientId'', js_or (js_get (body req) ''clientId'') JNull)]"
  obtain r w1 where h: "hSet ?id ?p w = (r, w1)" by (cases "hSet ?id ?p w")
  then have h': "hSet ?id ?p (w\<lparr>lcws := l\<rparr>) = (r, w1\<lparr>lcws := l\<rparr>)" by (simp add: hSet_lcws)
  obtain w2 where w2: "broadcastToLightcable ?ev w1 = Inr w2" using broadcast_total by blast
  obtain w2' where w2': "broadcastToLightcable ?ev (w1\<lparr>lcws := l\<rparr>) = Inr w2'"
    using broadcast_total by blast
  from broadcast_keeps [OF w2] broadcast_keeps [OF w2'] have k: "hash w2' = hash w2" by simp
  show ?thesis
    using h h' w2 w2' k
    by (cases r) (simp_all add: post_annotations_def Let_def internal_fst internal_hash)
qed

lemma put_ignores_lcws:
  "fst (put_annotations now req (w\<lparr>lcws := l\<rparr>)) = fst (put_annotations now req w)
   \<and> hash (snd (put_annotations now req (w\<lparr>lcws := l\<rparr>))) = hash (snd (put_annotations now req w))"
proof -
  let ?id = "params_id req"
  let ?p = "JSON_stringify (stored_obj (js_get (body req) ''lngLat'') now (js_get (body req) ''clientId''))"
  let ?ev = "JObj [(''type'', JStr ''update''), (''id'', JStr ?id), (''lngLat'', js_get (body req) ''lngLat''),
                   (''clientId'', js_or (js_get (body req) ''clientId'') JNull)]"
  obtain g w1 where g: "hGet ?id w = (g, w1)" by (cases "hGet ?id w")
  then have g': "hGet ?id (w\<lparr>lcws := l\<rparr>) = (g, w1\<lparr>lcws := l\<rparr>)" by (simp add: hGet_lcws)
  obtain r w2 where h: "hSet (JStr ?id) ?p w1 = (r, w2)" by (cases "hSet (JStr ?id) ?p w1")
  then have h': "hSet (JStr ?id) ?p (w1\<lparr>lcws := l\<rparr>) = (r, w2\<lparr>lcws := l\<rparr>)" by (simp add: hSet_lcws)
  obtain w3 where w3: "broadcastToLightcable ?ev w2 = Inr w3" using broadcast_total by blast
  obtain w3' where w3': "broadcastToLightcable ?ev (w2\<lparr>lcws := l\<rparr>) = Inr w3'"
    using broadcast_total by blast
  from broadcast_keeps [OF w3] broadcast_keeps [OF w3'] have k: "hash w3' = hash w3" by simp
  show ?thesis
    using g g' h h' w3 w3' k
    by (cases g; cases r) (simp_all add: put_annotations_def Let_def internal_fst internal_hash)
qed

lemma delete_ignores_lcws:
  "fst (delete_annotations req (w\<lparr>lcws := l\<rparr>)) = fst (delete_annotations req w)
   \<and> hash (snd (delete_annotations req (w\<lparr>lcws := l\<rparr>))) = hash (snd (delete_annotations req w))"
proof -
  let ?ev = "JObj [(''type'', JStr ''remove''), (''id'', JStr (params_id req)), (''clientId'', JNull)]"
  obtain r w1 where h: "hDel (params_id req) w = (r, w1)" by (cases "hDel (params_id req) w")
  then have h': "hDel (params_id req) (w\<lparr>lcws := l\<rparr>) = (r, w1\<lparr>lcws := l\<rparr>)" by (simp add: hDel_lcws)
  obtain w2 where w2: "broadcastToLightcable ?ev w1 = Inr w2" using broadcast_total by blast
  obtain w2' where w2': "broadcastToLightcable ?ev (w1\<lparr>lcws := l\<rparr>) = Inr w2'"
    using broadcast_total by blast
  from broadcast_keeps [OF w2] broadcast_keeps [OF w2'] have k: "hash w2' = hash w2" by simp
  show ?thesis
    using h h' w2 w2' k
    by (cases r) (simp_all add: delete_annotations_def Let_def internal_fst internal_hash)
qed

lemma down_effect:
  assumes "closed_or_errored ev"
  shows "lcws (transport_reports env ev w) = None
       \<and> timeouts (transport_reports env ev w) = timeouts w @ [2000]"
  using assms
  by (cases ev) (simp_all add: lcws_on_close_def lcws_on_error_def console_write_def Let_def)

lemma round_effect:
  assumes "LIGHTCABLE_WS_URL env = Some u" and "closed_or_errored ev" and "timeouts w = []"
  shows "lcws (reconnect_round env ev w) = Some (new_WebSocket u)
       \<and> timeouts (reconnect_round env ev w) = []"
  using assms(1,3) down_effect [OF assms(2), of env w]
  by (simp add: reconnect_round_def timeout_fires_def connectLightcable_def)

lemma round_connects:
  assumes "LIGHTCABLE_WS_URL env = Some u" and "closed_or_errored ev"
  shows "lcws (reconnect_round env ev w) = Some (new_WebSocket u)"
proof -
  from down_effect [OF assms(2), of env w]
  have "timeouts (transport_reports env ev w) \<noteq> []" by simp
  then obtain d ds where "timeouts (transport_reports env ev w) = d # ds"
    by (meson neq_Nil_conv)
  with assms(1) show ?thesis
    by (simp add: reconnect_round_def timeout_fires_def connectLightcable_def)
qed

lemma rounds_quiescent:
  assumes "LIGHTCABLE_WS_URL env = Some u"
  shows "timeouts w = [] \<Longrightarrow> list_all closed_or_errored evs \<Longrightarrow>
           timeouts (fold (reconnect_round env) evs w) = []"
proof (induction evs arbitrary: w)
  case Nil
  then show ?case by simp
next
  case (Cons ev evs)
  from Cons.prems have d: "closed_or_errored ev" and r: "list_all closed_or_errored evs" by simp_all
  from round_effect [OF assms d Cons.prems(1)]
  have "timeouts (reconnect_round env ev w) = []" by simp
  from Cons.IH [OF this r] show ?case by simp
qed

lemma js_or_falsy: "\<not> truthy c \<Longrightarrow> js_or c JNull = JNull"
  by (simp add: js_or_def)

lemma written_update:
  "list_all written (map snd h) \<Longrightarrow> written v \<Longrightarrow> list_all written (map snd (AList.update k v h))"
  by (induction h) auto

lemma written_delete:
  "list_all written (map snd h) \<Longrightarrow> list_all written (map snd (AList.delete k h))"
  by (induction h) auto

lemma owned_store_update:
  "owned_store w \<Longrightarrow> written v \<Longrightarrow> hash w' = AList.update k v (hash w) \<Longrightarrow> owned_store w'"
  by (simp add: owned_store_def written_update AList.distinct_update)

lemma owned_store_same: "owned_store w \<Longrightarrow> hash w' = hash w \<Longrightarrow> owned_store w'"
  by (simp add: owned_store_def)

lemma post_unchanged:
  assumes "status (fst (post_annotations now req w)) \<noteq> 201"
  shows "hash (snd (post_annotations now req w)) = hash w"
proof -
  let ?id = "js_get (body req) ''id''"
  let ?p = "JSON_stringify (stored_obj (js_get (body req) ''lngLat'') now (js_get (body req) ''clientId''))"
  let ?ev = "JObj [(''type'', JStr ''add''), (''id'', ?id), (''lngLat'', js_get (body req) ''lngLat''),
                   (''clientId'', js_or (js_get (body req) ''clientId'') JNull)]"
  obtain r w1 where h: "hSet ?id ?p w = (r, w1)" by (cases "hSet ?id ?p w")
  have l: "\<And>e. r = Inl e \<Longrightarrow> hash w1 = hash w"
    using h by (auto simp: hSet_def issue_def split: if_splits jsval.splits sum.splits)
  obtain w2 where w2: "broadcastToLightcable ?ev w1 = Inr w2" using broadcast_total by blast
  show ?thesis
    using assms h l w2
    by (cases r) (auto simp: post_annotations_def Let_def internal_def console_write_def split: if_splits)
qed

lemma put_unchanged:
  assumes "status (fst (put_annotations now req w)) \<noteq> 200"
  shows "hash (snd (put_annotations now req w)) = hash w"
proof -
  let ?id = "params_id req"
  let ?p = "JSON_stringify (stored_obj (js_get (body req) ''lngLat'') now (js_get (body req) ''clientId''))"
  let ?ev = "JObj [(''type'', JStr ''update''), (''id'', JStr ?id), (''lngLat'', js_get (body req) ''lngLat''),
                   (''clientId'', js_or (js_get (body req) ''clientId'') JNull)]"
  obtain g w1 where g: "hGet ?id w = (g, w1)" by (cases "hGet ?id w")
  have l1: "hash w1 = hash w" using g by (auto simp: hGet_def issue_def split: if_splits)
  obtain r w2 where h: "hSet (JStr ?id) ?p w1 = (r, w2)" by (cases "hSet (JStr ?id) ?p w1")
  have l2: "\<And>e. r = Inl e \<Longrightarrow> hash w2 = hash w1"
    using h by (auto simp: hSet_def issue_def split: if_splits)
  obtain w3 where w3: "broadcastToLightcable ?ev w2 = Inr w3" using broadcast_total by blast
  show ?thesis
    using assms g h l1 l2 w3
    by (cases g; cases r)
       (auto simp: put_annotations_def Let_def internal_def console_write_def split: if_splits)
qed

text \<open>Every handler preserves \<open>owned_store\<close> (a create, when its id is a string).\<close>

lemma owned_store_post:
  assumes "owned_store w" and "js_get (body req) ''id'' = JStr i"
  shows "owned_store (snd (post_annotations now req w))"
proof (cases "status (fst (post_annotations now req w)) = 201")
  case True
  from post_201 [OF True] obtain xs where
    f: "redis_up w" "i \<noteq> []" "js_get (body req) ''lngLat'' = JArr xs" "2 \<le> length xs"
    using assms(2) isArray_JArr [of "js_get (body req) ''lngLat''"] by auto
  from post_accepts [OF f(1) assms(2) f(2,3,4), of now]
  show ?thesis by (intro owned_store_update [OF assms(1) written_stored]) simp
next
  case False
  from post_unchanged [OF False] show ?thesis by (rule owned_store_same [OF assms(1)])
qed

lemma owned_store_put:
  assumes "owned_store w"
  shows "owned_store (snd (put_annotations now req w))"
proof (cases "status (fst (put_annotations now req w)) = 200")
  case True
  from put_200 [OF True] obtain xs where
    f: "redis_up w" "destructurable (body req)" "js_get (body req) ''lngLat'' = JArr xs" "2 \<le> length xs"
    using isArray_JArr [of "js_get (body req) ''lngLat''"] by auto
  from put_accepts [OF f, of now]
  show ?thesis by (intro owned_store_update [OF assms(1) written_stored]) simp
next
  case False
  from put_unchanged [OF False] show ?thesis by (rule owned_store_same [OF assms(1)])
qed

lemma owned_store_delete:
  assumes "owned_store w"
  shows "owned_store (snd (delete_annotations req w))"
proof -
  let ?ev = "JObj [(''type'', JStr ''remove''), (''id'', JStr (params_id req)), (''clientId'', JNull)]"
  obtain r w1 where h: "hDel (params_id req) w = (r, w1)" by (cases "hDel (params_id req) w")
  have l: "hash w1 = hash w \<or> hash w1 = AList.delete (params_id req) (hash w)"
    using h by (auto simp: hDel_def issue_def split: if_splits)
  obtain w2 where w2: "broadcastToLightcable ?ev w1 = Inr w2" using broadcast_total by blast
  from broadcast_keeps [OF w2] have k: "hash w2 = hash w1" by simp
  have "hash (snd (delete_annotations req w)) = hash w1"
    using h w2 k by (cases r) (simp_all add: delete_annotations_def Let_def internal_hash)
  with l assms show ?thesis
    by (auto simp: owned_store_def written_delete AList.distinct_delete)
qed

lemma owned_store_get:
  assumes "owned_store w"
  shows "owned_store (snd (get_annotations req w))"
  using assms
  by (simp add: owned_store_def get_annotations_def hGetAll_def issue_def internal_def console_write_def)

lemma owned_store_empty: "hash w = [] \<Longrightarrow> owned_store w"
  by (simp add: owned_store_def)

section \<open>The claims\<close>

text \<open>
  \<^bold>\<open>C1.\<close> As stated (for every non-empty string id and every position array of at least
  two elements, a create followed by a list yields exactly one record with that id, and
  its position equals the input) the claim fails in two ways, shown together below. The
  list merges each parsed payload over the field name (\<^verbatim>\<open>{ id, ...obj }\<close>), so an entry
  that was not written by the server and carries an \<^verbatim>\<open>id\<close> member of its own is listed
  under that id; and the position is stored as JSON text, where a non-finite number (the
  parse of an overflowing literal such as \<^verbatim>\<open>1e999\<close>) is written as \<^verbatim>\<open>null\<close>.

  What holds: on a reachable Redis in whose hash no entry under another field is listed
  under the created id (the hash may hold malformed payloads and payloads of any other
  shape), a create with a non-empty string id and an array of at least two elements is
  answered 201, and the list that follows is answered 200 with exactly one record of that
  id; its position is the JSON round trip of the input, which is the input itself when the
  array holds only values JSON represents exactly.
\<close>

theorem C1_create_then_list:
  assumes "redis_up w"
      and "distinct (map fst (hash w))"
      and "no_other_lists_as i w"
      and "js_get (body req) ''id'' = JStr i" and "i \<noteq> []"
      and "js_get (body req) ''lngLat'' = JArr xs" and "2 \<le> length xs"
  shows "status (fst (post_annotations now req w)) = 201
       \<and> status (fst (get_annotations req' (snd (post_annotations now req w)))) = 200
       \<and> (\<exists>recs r. json (fst (get_annotations req' (snd (post_annotations now req w)))) = JArr recs
             \<and> filter (\<lambda>r. js_get r ''id'' = JStr i) recs = [r]
             \<and> js_get r ''lngLat'' = to_json (JArr xs)
             \<and> (finite_json (JArr xs) \<longrightarrow> js_get r ''lngLat'' = JArr xs))"
proof -
  let ?c = "js_get (body req) ''clientId''"
  let ?p = "JSON_stringify (stored_obj (JArr xs) now ?c)"
  let ?w' = "snd (post_annotations now req w)"
  note d = assms(2)
  from assms(3)
  have o: "list_all (\<lambda>e. fst e = i \<or> js_get (entry_record e) ''id'' \<noteq> JStr i) (hash w)"
    by (simp add: no_other_lists_as_def)
  from post_accepts [OF assms(1,4,5,6,7), of now]
  have st: "status (fst (post_annotations now req w)) = 201"
    and h: "hash ?w' = AList.update i ?p (hash w)"
    and up: "redis_up ?w'" by simp_all
  have g: "get_annotations req' ?w' =
      (\<lparr>status = 200, json = JArr (filter truthy (map entry_record (AList.update i ?p (hash w))))\<rparr>,
       issue HGETALL ?w')"
    using get_lists [OF up, of req'] h by simp
  have f: "filter (\<lambda>r. js_get r ''id'' = JStr i)
             (filter truthy (map entry_record (AList.update i ?p (hash w)))) = [entry_record (i, ?p)]"
    using entry_record_written_id [OF written_stored, of i xs now ?c]
    by (intro filter_id_update [OF _ _ d o]) simp_all
  have l: "js_get (entry_record (i, ?p)) ''lngLat'' = to_json (JArr xs)"
    by (simp add: entry_record_def stringify_stored spread_def)
  have e: "finite_json (JArr xs) \<longrightarrow> js_get (entry_record (i, ?p)) ''lngLat'' = JArr xs"
    using l to_json_finite [of "JArr xs"] by simp
  show ?thesis using st g f l e by simp
qed

theorem C1_counterexample:
  "json (fst (get_annotations (request_with [] JUndefined)
                (snd (post_annotations 1000 create_overflow foreign_world))))
     = JArr [JObj [(''id'', JStr ''a1'')],
             JObj [(''id'', JStr ''a1''), (''lngLat'', JArr [JNull, JNum (Finite 0)]),
                   (''updatedAt'', JNum (Finite 1000)), (''clientId'', JNull)]]
   \<and> js_get (body create_overflow) ''lngLat'' = JArr [JNum PosInfinity, JNum (Finite 0)]
   \<and> JArr [JNull, JNum (Finite 0)] \<noteq> JArr [JNum PosInfinity, JNum (Finite 0)]"
  by (simp add: sample_defs handler_eval)

theorem C1_witness:
  "redis_up mixed_world
   \<and> distinct (map fst (hash mixed_world))
   \<and> no_other_lists_as ''a1'' mixed_world
   \<and> js_get (body create_a1) ''id'' = JStr ''a1'' \<and> ''a1'' \<noteq> []
   \<and> js_get (body create_a1) ''lngLat'' = JArr [JNum (Finite 10), JNum (Finite 20)]
   \<and> 2 \<le> length [JNum (Finite 10), JNum (Finite 20)]
   \<and> finite_json (JArr [JNum (Finite 10), JNum (Finite 20)])
   \<and> status (fst (post_annotations 1000 create_a1 mixed_world)) = 201
   \<and> status (fst (get_annotations (request_with [] JUndefined)
                    (snd (post_annotations 1000 create_a1 mixed_world)))) = 200
   \<and> (\<exists>recs r. json (fst (get_annotations (request_with [] JUndefined)
                    (snd (post_annotations 1000 create_a1 mixed_world)))) = JArr recs
         \<and> filter (\<lambda>r. js_get r ''id'' = JStr ''a1'') recs = [r]
         \<and> js_get r ''lngLat'' = JArr [JNum (Finite 10), JNum (Finite 20)])"
proof -
  have h1: "redis_up mixed_world" by (simp add: sample_defs)
  have h2: "distinct (map fst (hash mixed_world))" by (simp add: sample_defs)
  have h3: "no_other_lists_as ''a1'' mixed_world"
    by (simp add: no_other_lists_as_def entry_record_def spread_def sample_defs)
  have h4: "js_get (body create_a1) ''id'' = JStr ''a1''" by (simp add: sample_defs)
  have h5: "''a1'' \<noteq> []" by simp
  have h6: "js_get (body create_a1) ''lngLat'' = JArr [JNum (Finite 10), JNum (Finite 20)]"
    by (simp add: sample_defs)
  have h7: "2 \<le> length [JNum (Finite 10), JNum (Finite 20)]" by simp
  have h8: "finite_json (JArr [JNum (Finite 10), JNum (Finite 20)])" by simp
  from C1_create_then_list [OF h1 h2 h3 h4 h5 h6 h7, of 1000 "request_with [] JUndefined"] h8
  have "status (fst (post_annotations 1000 create_a1 mixed_world)) = 201
   \<and> status (fst (get_annotations (request_with [] JUndefined)
                    (snd (post_annotations 1000 create_a1 mixed_world)))) = 200
   \<and> (\<exists>recs r. json (fst (get_annotations (request_with [] JUndefined)
                    (snd (post_annotations 1000 create_a1 mixed_world)))) = JArr recs
         \<and> filter (\<lambda>r. js_get r ''id'' = JStr ''a1'') recs = [r]
         \<and> js_get r ''lngLat'' = JArr [JNum (Finite 10), JNum (Finite 20)])"
    by blast
  with h1 h2 h3 h4 h5 h6 h7 h8 show ?thesis by blast
qed

text \<open>
  \<^bold>\<open>C2.\<close> Every successful write stamps the stored record with the reading of the clock
  taken by that write. When \<^verbatim>\<open>POST /annotations\<close> answers 201, the one command it has sent
  is an \<^verbatim>\<open>HSET\<close> of a payload whose \<^verbatim>\<open>updatedAt\<close> is \<open>now\<close>, the value of \<^verbatim>\<open>Date.now()\<close> in
  that call; for a string id this payload is what the hash then holds under the id; and
  the record returned carries the same \<^verbatim>\<open>updatedAt\<close>. When \<^verbatim>\<open>PUT /annotations/:id\<close> answers
  200 the same holds, after its \<^verbatim>\<open>HGET\<close>. The state before the call is arbitrary, so
  nothing is taken from a record stored earlier under the id.
\<close>

theorem C2_updatedAt_is_now:
  "(status (fst (post_annotations now req w)) = 201 \<longrightarrow>
      (\<exists>l c. redis_calls (snd (post_annotations now req w)) =
                redis_calls w @ [HSET (js_get (body req) ''id'')
                  (Json (JObj [(''lngLat'', l), (''updatedAt'', JNum (Finite (of_int now))),
                               (''clientId'', c)]))]
            \<and> (\<forall>i. js_get (body req) ''id'' = JStr i \<longrightarrow>
                  map_of (hash (snd (post_annotations now req w))) i =
                    Some (Json (JObj [(''lngLat'', l), (''updatedAt'', JNum (Finite (of_int now))),
                                      (''clientId'', c)]))))
      \<and> js_get (json (fst (post_annotations now req w))) ''updatedAt'' = JNum (Finite (of_int now)))
   \<and> (status (fst (put_annotations now req w)) = 200 \<longrightarrow>
      (\<exists>l c. redis_calls (snd (put_annotations now req w)) =
                redis_calls w @ [HGET (params_id req), HSET (JStr (params_id req))
                  (Json (JObj [(''lngLat'', l), (''updatedAt'', JNum (Finite (of_int now))),
                               (''clientId'', c)]))]
            \<and> map_of (hash (snd (put_annotations now req w))) (params_id req) =
                Some (Json (JObj [(''lngLat'', l), (''updatedAt'', JNum (Finite (of_int now))),
                                  (''clientId'', c)])))
      \<and> js_get (json (fst (put_annotations now req w))) ''updatedAt'' = JNum (Finite (of_int now)))"
proof (intro conjI impI)
  assume ok: "status (fst (post_annotations now req w)) = 201"
  from post_201 [OF ok] obtain xs where
    f: "redis_up w" "truthy (js_get (body req) ''id'')" "js_get (body req) ''lngLat'' = JArr xs" "2 \<le> length xs"
    using isArray_JArr [of "js_get (body req) ''lngLat''"] by auto
  let ?l = "to_json (JArr xs)" and ?c = "to_json (js_or (js_get (body req) ''clientId'') JNull)"
  have calls: "redis_calls (snd (post_annotations now req w)) =
                redis_calls w @ [HSET (js_get (body req) ''id'')
                  (Json (JObj [(''lngLat'', ?l), (''updatedAt'', JNum (Finite (of_int now))),
                               (''clientId'', ?c)]))]"
    using post_201_calls [OF ok] f(3) stringify_stored [of xs now "js_get (body req) ''clientId''"] by simp
  have stored: "\<forall>i. js_get (body req) ''id'' = JStr i \<longrightarrow>
                  map_of (hash (snd (post_annotations now req w))) i =
                    Some (Json (JObj [(''lngLat'', ?l), (''updatedAt'', JNum (Finite (of_int now))),
                                      (''clientId'', ?c)]))"
  proof (intro allI impI)
    fix i assume i: "js_get (body req) ''id'' = JStr i"
    with f(2) have "i \<noteq> []" by simp
    from post_accepts [OF f(1) i this f(3,4), of now]
    show "map_of (hash (snd (post_annotations now req w))) i =
                    Some (Json (JObj [(''lngLat'', ?l), (''updatedAt'', JNum (Finite (of_int now))),
                                      (''clientId'', ?c)]))"
      using stringify_stored [of xs now "js_get (body req) ''clientId''"] by (simp add: AList.update_conv')
  qed
  from calls stored
  show "\<exists>l c. redis_calls (snd (post_annotations now req w)) =
                redis_calls w @ [HSET (js_get (body req) ''id'')
                  (Json (JObj [(''lngLat'', l), (''updatedAt'', JNum (Finite (of_int now))),
                               (''clientId'', c)]))]
            \<and> (\<forall>i. js_get (body req) ''id'' = JStr i \<longrightarrow>
                  map_of (hash (snd (post_annotations now req w))) i =
                    Some (Json (JObj [(''lngLat'', l), (''updatedAt'', JNum (Finite (of_int now))),
                                      (''clientId'', c)])))"
    by blast
  from post_201_calls [OF ok]
  show "js_get (json (fst (post_annotations now req w))) ''updatedAt'' = JNum (Finite (of_int now))"
    by simp
next
  assume ok: "status (fst (put_annotations now req w)) = 200"
  from put_200 [OF ok] obtain xs where
    f: "redis_up w" "destructurable (body req)" "js_get (body req) ''lngLat'' = JArr xs" "2 \<le> length xs"
    using isArray_JArr [of "js_get (body req) ''lngLat''"] by auto
  let ?l = "to_json (JArr xs)" and ?c = "to_json (js_or (js_get (body req) ''clientId'') JNull)"
  have calls: "redis_calls (snd (put_annotations now req w)) =
                redis_calls w @ [HGET (params_id req), HSET (JStr (params_id req))
                  (Json (JObj [(''lngLat'', ?l), (''updatedAt'', JNum (Finite (of_int now))),
                               (''clientId'', ?c)]))]"
    using put_accepts [OF f, of now] stringify_stored [of xs now "js_get (body req) ''clientId''"]
    by simp
  from put_accepts [OF f, of now]
  have "map_of (hash (snd (put_annotations now req w))) (params_id req) =
                Some (Json (JObj [(''lngLat'', ?l), (''updatedAt'', JNum (Finite (of_int now))),
                                  (''clientId'', ?c)]))"
    using stringify_stored [of xs now "js_get (body req) ''clientId''"] by (simp add: AList.update_conv')
  with calls
  show "\<exists>l c. redis_calls (snd (put_annotations now req w)) =
                redis_calls w @ [HGET (params_id req), HSET (JStr (params_id req))
                  (Json (JObj [(''lngLat'', l), (''updatedAt'', JNum (Finite (of_int now))),
                               (''clientId'', c)]))]
            \<and> map_of (hash (snd (put_annotations now req w))) (params_id req) =
                Some (Json (JObj [(''lngLat'', l), (''updatedAt'', JNum (Finite (of_int now))),
                                  (''clientId'', c)]))"
    by blast
  from put_accepts [OF f, of now]
  show "js_get (json (fst (put_annotations now req w))) ''updatedAt'' = JNum (Finite (of_int now))"
    by (simp add: spread_def)
qed

theorem C2_witness:
  "status (fst (post_annotations 1000 create_a1 stale_world)) = 201
   \<and> js_get (body create_a1) ''id'' = JStr ''a1''
   \<and> (\<exists>l c. map_of (hash (snd (post_annotations 1000 create_a1 stale_world))) ''a1'' =
               Some (Json (JObj [(''lngLat'', l), (''updatedAt'', JNum (Finite 1000)), (''clientId'', c)])))
   \<and> js_get (json (fst (post_annotations 1000 create_a1 stale_world))) ''updatedAt'' = JNum (Finite 1000)
   \<and> status (fst (put_annotations 1000 update_a1 stale_world)) = 200
   \<and> (\<exists>l c. map_of (hash (snd (put_annotations 1000 update_a1 stale_world))) (params_id update_a1) =
               Some (Json (JObj [(''lngLat'', l), (''updatedAt'', JNum (Finite 1000)), (''clientId'', c)])))
   \<and> js_get (json (fst (put_annotations 1000 update_a1 stale_world))) ''updatedAt'' = JNum (Finite 1000)"
proof -
  have p1: "status (fst (post_annotations 1000 create_a1 stale_world)) = 201"
    by (simp add: sample_defs handler_eval)
  have p2: "js_get (body create_a1) ''id'' = JStr ''a1''"
    by (simp add: sample_defs)
  have p3: "status (fst (put_annotations 1000 update_a1 stale_world)) = 200"
    by (simp add: sample_defs handler_eval)
  from C2_updatedAt_is_now [of 1000 create_a1 stale_world] p1 p2
  have a: "(\<exists>l c. map_of (hash (snd (post_annotations 1000 create_a1 stale_world))) ''a1'' =
               Some (Json (JObj [(''lngLat'', l), (''updatedAt'', JNum (Finite 1000)), (''clientId'', c)])))
     \<and> js_get (json (fst (post_annotations 1000 create_a1 stale_world))) ''updatedAt'' = JNum (Finite 1000)"
    by auto
  from C2_updatedAt_is_now [of 1000 update_a1 stale_world] p3
  have b: "(\<exists>l c. map_of (hash (snd (put_annotations 1000 update_a1 stale_world))) (params_id update_a1) =
               Some (Json (JObj [(''lngLat'', l), (''updatedAt'', JNum (Finite 1000)), (''clientId'', c)])))
     \<and> js_get (json (fst (put_annotations 1000 update_a1 stale_world))) ''updatedAt'' = JNum (Finite 1000)"
    by auto
  from p1 p2 p3 a b show ?thesis by blast
qed




text \<open>
  \<^bold>\<open>C4.\<close> With Redis reachable, \<^verbatim>\<open>DELETE /annotations/:id\<close> is answered 200, never with an
  error; \<^verbatim>\<open>removed\<close> is true exactly when the hash had an entry under the id, and the hash
  afterwards has none; and in both cases the event
  \<^verbatim>\<open>{ type: 'remove', id, clientId: null }\<close> is handed to \<^verbatim>\<open>broadcastToLightcable\<close>, on the
  state left by the \<^verbatim>\<open>HDEL\<close>: the state after the request is what that call returns.
\<close>

theorem C4_delete_reports_and_notifies:
  assumes "redis_up w"
  shows "fst (delete_annotations req w) =
           \<lparr>status = 200,
            json = JObj [(''id'', JStr (params_id req)),
                         (''removed'', JBool (params_id req \<in> fst ` set (hash w)))]\<rparr>
       \<and> hash (snd (delete_annotations req w)) = AList.delete (params_id req) (hash w)
       \<and> params_id req \<notin> fst ` set (hash (snd (delete_annotations req w)))
       \<and> broadcastToLightcable
            (JObj [(''type'', JStr ''remove''), (''id'', JStr (params_id req)), (''clientId'', JNull)])
            (snd (hDel (params_id req) w))
           = Inr (snd (delete_annotations req w))"
proof -
  let ?ev = "JObj [(''type'', JStr ''remove''), (''id'', JStr (params_id req)), (''clientId'', JNull)]"
  let ?w1 = "snd (hDel (params_id req) w)"
  obtain w2 where w2: "broadcastToLightcable ?ev ?w1 = Inr w2" using broadcast_total by blast
  from broadcast_keeps [OF w2] have k: "hash w2 = hash ?w1" by simp
  have d: "delete_annotations req w =
      (\<lparr>status = 200, json = JObj [(''id'', JStr (params_id req)),
                         (''removed'', JBool (params_id req \<in> fst ` set (hash w)))]\<rparr>, w2)"
    using assms w2 by (simp add: delete_annotations_def hDel_def Let_def)
  have h: "hash ?w1 = AList.delete (params_id req) (hash w)"
    using assms by (simp add: hDel_def issue_def)
  from d k h w2 show ?thesis by (simp add: AList.delete_notin_dom)
qed

theorem C4_witness:
  "redis_up stale_world
   \<and> fst (delete_annotations (request_with ''a1'' JUndefined) stale_world) =
       \<lparr>status = 200, json = JObj [(''id'', JStr ''a1''), (''removed'', JBool True)]\<rparr>
   \<and> hash (snd (delete_annotations (request_with ''a1'' JUndefined) stale_world)) = []
   \<and> broadcastToLightcable
        (JObj [(''type'', JStr ''remove''), (''id'', JStr ''a1''), (''clientId'', JNull)])
        (snd (hDel ''a1'' stale_world))
       = Inr (snd (delete_annotations (request_with ''a1'' JUndefined) stale_world))
   \<and> redis_up quiet_world
   \<and> fst (delete_annotations (request_with ''a1'' JUndefined) quiet_world) =
       \<lparr>status = 200, json = JObj [(''id'', JStr ''a1''), (''removed'', JBool False)]\<rparr>
   \<and> broadcastToLightcable
        (JObj [(''type'', JStr ''remove''), (''id'', JStr ''a1''), (''clientId'', JNull)])
        (snd (hDel ''a1'' quiet_world))
       = Inr (snd (delete_annotations (request_with ''a1'' JUndefined) quiet_world))"
proof -
  have h1: "redis_up stale_world" by (simp add: sample_defs)
  have h2: "redis_up quiet_world" by (simp add: sample_defs)
  have p: "params_id (request_with ''a1'' JUndefined) = ''a1''" by (simp add: sample_defs)
  have k1: "''a1'' \<in> fst ` set (hash stale_world)" by (simp add: sample_defs)
  have k2: "''a1'' \<notin> fst ` set (hash quiet_world)" by (simp add: sample_defs)
  have d: "AList.delete ''a1'' (hash stale_world) = []" by (simp add: sample_defs)
  from C4_delete_reports_and_notifies [OF h1, of "request_with ''a1'' JUndefined"]
       C4_delete_reports_and_notifies [OF h2, of "request_with ''a1'' JUndefined"]
       h1 h2 k1 k2 d
  show ?thesis by (simp add: p)
qed

text \<open>
  \<^bold>\<open>C5.\<close> As stated (list drops every entry whose payload does not parse as a valid record)
  the claim fails: the handler guards \<^verbatim>\<open>JSON.parse\<close> alone and never looks at what was
  parsed, so an entry whose payload is the JSON text \<^verbatim>\<open>null\<close> is listed as \<^verbatim>\<open>{ id }\<close>, a
  record with no position. What holds: with Redis reachable the list is answered 200, with
  one record \<^verbatim>\<open>{ id, ...parsed }\<close> for each entry whose payload is JSON text, in the order
  of the hash, and nothing for an entry whose payload is not JSON text; the hash is
  unchanged.
\<close>

theorem C5_list_drops_unparsable:
  assumes "redis_up w"
  shows "fst (get_annotations req w) =
           \<lparr>status = 200, json = JArr (map entry_record (filter (\<lambda>e. is_json (snd e)) (hash w)))\<rparr>
       \<and> hash (snd (get_annotations req w)) = hash w
       \<and> (\<forall>k v. entry_record (k, Json v) = JObj (spread v [(''id'', JStr k)]))"
  using assms get_lists [OF assms, of req]
  by (simp add: entry_record_filter issue_def entry_record_def)

theorem C5_counterexample:
  "map_of (hash mixed_world) ''k'' = Some (Json JNull)
   \<and> json (fst (get_annotations (request_with [] JUndefined) mixed_world)) =
       JArr [JObj [(''id'', JStr ''k'')],
             JObj [(''id'', JStr ''b1''), (''lngLat'', JArr [JNum (Finite 1), JNum (Finite 2)]),
                   (''updatedAt'', JNum (Finite 5)), (''clientId'', JNull)]]
   \<and> js_get (JObj [(''id'', JStr ''k'')]) ''lngLat'' = JUndefined"
  by (simp add: sample_defs handler_eval)

theorem C5_witness:
  "redis_up mixed_world
   \<and> fst (get_annotations (request_with [] JUndefined) mixed_world) =
       \<lparr>status = 200,
        json = JArr (map entry_record (filter (\<lambda>e. is_json (snd e)) (hash mixed_world)))\<rparr>
   \<and> filter (\<lambda>e. is_json (snd e)) (hash mixed_world) =
       [(''k'', Json JNull),
        (''b1'', Json (JObj [(''lngLat'', JArr [JNum (Finite 1), JNum (Finite 2)]),
                             (''updatedAt'', JNum (Finite 5)), (''clientId'', JNull)]))]
   \<and> hash (snd (get_annotations (request_with [] JUndefined) mixed_world)) = hash mixed_world"
proof -
  have h: "redis_up mixed_world" by (simp add: sample_defs)
  from C5_list_drops_unparsable [OF h, of "request_with [] JUndefined"] h
  show ?thesis by (simp add: mixed_world_def quiet_world_def)
qed

text \<open>
  \<^bold>\<open>C6.\<close> A create (\<^verbatim>\<open>POST /annotations\<close>) or an update (\<^verbatim>\<open>PUT /annotations/:id\<close>) whose
  position \<^verbatim>\<open>lngLat\<close> is not an array, or is an array of fewer than two elements, is
  answered with status 400 (InvalidArgument), and the state after the call is the state
  before it: the hash is unchanged and no command has been issued to Redis
  (\<open>redis_calls\<close> is part of the state). It holds whether or not Redis is reachable, and
  whatever the id and the client id are. The request has a body to destructure.
\<close>

theorem C6_short_position_rejected_unchanged:
  assumes "destructurable (body req)"
      and "\<not> (isArray (js_get (body req) ''lngLat'')
               \<and> 2 \<le> js_length (js_get (body req) ''lngLat''))"
  shows "post_annotations now req w =
           (\<lparr>status = 400,
             json = JObj [(''error'', JStr ''invalid payload, need id and lngLat'')]\<rparr>, w)
       \<and> put_annotations now req w =
           (\<lparr>status = 400, json = JObj [(''error'', JStr ''invalid payload, need lngLat'')]\<rparr>, w)"
  using assms by (auto simp: post_annotations_def put_annotations_def Let_def)

theorem C6_witness:
  "destructurable (body (request_with ''a1'' (JObj [(''id'', JStr ''a1''), (''lngLat'', JArr [JNum (Finite 10)])])))
   \<and> \<not> (isArray (js_get (body (request_with ''a1'' (JObj [(''id'', JStr ''a1''), (''lngLat'', JArr [JNum (Finite 10)])]))) ''lngLat'')
         \<and> 2 \<le> js_length (js_get (body (request_with ''a1'' (JObj [(''id'', JStr ''a1''), (''lngLat'', JArr [JNum (Finite 10)])]))) ''lngLat''))
   \<and> fst (post_annotations 1000 (request_with ''a1'' (JObj [(''id'', JStr ''a1''), (''lngLat'', JArr [JNum (Finite 10)])])) quiet_world)
       = \<lparr>status = 400, json = JObj [(''error'', JStr ''invalid payload, need id and lngLat'')]\<rparr>
   \<and> snd (post_annotations 1000 (request_with ''a1'' (JObj [(''id'', JStr ''a1''), (''lngLat'', JArr [JNum (Finite 10)])])) quiet_world)
       = quiet_world
   \<and> fst (put_annotations 1000 (request_with ''a1'' (JObj [(''id'', JStr ''a1''), (''lngLat'', JArr [JNum (Finite 10)])])) quiet_world)
       = \<lparr>status = 400, json = JObj [(''error'', JStr ''invalid payload, need lngLat'')]\<rparr>
   \<and> snd (put_annotations 1000 (request_with ''a1'' (JObj [(''id'', JStr ''a1''), (''lngLat'', JArr [JNum (Finite 10)])])) quiet_world)
       = quiet_world"
proof -
  let ?r = "request_with ''a1'' (JObj [(''id'', JStr ''a1''), (''lngLat'', JArr [JNum (Finite 10)])])"
  have h1: "destructurable (body ?r)"
    by (simp add: request_with_def destructurable_def)
  have h2: "\<not> (isArray (js_get (body ?r) ''lngLat'') \<and> 2 \<le> js_length (js_get (body ?r) ''lngLat''))"
    by (simp add: request_with_def)
  from C6_short_position_rejected_unchanged [OF h1 h2, of 1000 quiet_world] h1 h2
  show ?thesis by simp
qed

text \<open>
  \<^bold>\<open>C7.\<close> As stated (every event has the shape
  \<^verbatim>\<open>{kind, id: string, position?, clientId: string|null}\<close>) the claim fails: the object the
  handlers hand to \<^verbatim>\<open>broadcastToLightcable\<close>, and the frame sent, name the event type
  \<^verbatim>\<open>type\<close> and the coordinates \<^verbatim>\<open>lngLat\<close>; there is no \<^verbatim>\<open>kind\<close> and no \<^verbatim>\<open>position\<close> member;
  and \<^verbatim>\<open>clientId\<close> is whatever truthy value the request carried, a number for instance.

  What holds: a create answered 201 hands over
  \<^verbatim>\<open>{ type: 'add', id, lngLat, clientId: clientId || null }\<close>, an update answered 200 hands
  over \<^verbatim>\<open>{ type: 'update', id, lngLat, clientId: clientId || null }\<close>, and a delete answered
  200 hands over \<^verbatim>\<open>{ type: 'remove', id, clientId: null }\<close>, which has no \<^verbatim>\<open>lngLat\<close>; \<^verbatim>\<open>id\<close>
  and \<^verbatim>\<open>lngLat\<close> are the request's own values (\<^verbatim>\<open>lngLat\<close> an array of at least two
  elements, \<^verbatim>\<open>id\<close> a string for update and remove). The event is handed over on the state
  the Redis command has left, and the state after the request is what the call returns. A
  request answered otherwise, and a list, leave the socket as it was.
\<close>

theorem C7_event_shape:
  "(status (fst (post_annotations now req w)) = 201 \<longrightarrow>
      broadcastToLightcable
        (JObj [(''type'', JStr ''add''), (''id'', js_get (body req) ''id''),
               (''lngLat'', js_get (body req) ''lngLat''),
               (''clientId'', js_or (js_get (body req) ''clientId'') JNull)])
        (snd (hSet (js_get (body req) ''id'')
                   (JSON_stringify (stored_obj (js_get (body req) ''lngLat'') now
                                               (js_get (body req) ''clientId''))) w))
        = Inr (snd (post_annotations now req w))
      \<and> truthy (js_get (body req) ''id'')
      \<and> isArray (js_get (body req) ''lngLat'') \<and> 2 \<le> js_length (js_get (body req) ''lngLat''))
   \<and> (status (fst (post_annotations now req w)) \<noteq> 201 \<longrightarrow>
        lcws (snd (post_annotations now req w)) = lcws w)
   \<and> (status (fst (put_annotations now req w)) = 200 \<longrightarrow>
      broadcastToLightcable
        (JObj [(''type'', JStr ''update''), (''id'', JStr (params_id req)),
               (''lngLat'', js_get (body req) ''lngLat''),
               (''clientId'', js_or (js_get (body req) ''clientId'') JNull)])
        (snd (hSet (JStr (params_id req))
                   (JSON_stringify (stored_obj (js_get (body req) ''lngLat'') now
                                               (js_get (body req) ''clientId'')))
                   (snd (hGet (params_id req) w))))
        = Inr (snd (put_annotations now req w))
      \<and> isArray (js_get (body req) ''lngLat'') \<and> 2 \<le> js_length (js_get (body req) ''lngLat''))
   \<and> (status (fst (put_annotations now req w)) \<noteq> 200 \<longrightarrow>
        lcws (snd (put_annotations now req w)) = lcws w)
   \<and> (status (fst (delete_annotations req w)) = 200 \<longrightarrow>
      broadcastToLightcable
        (JObj [(''type'', JStr ''remove''), (''id'', JStr (params_id req)), (''clientId'', JNull)])
        (snd (hDel (params_id req) w))
        = Inr (snd (delete_annotations req w)))
   \<and> (status (fst (delete_annotations req w)) \<noteq> 200 \<longrightarrow>
        lcws (snd (delete_annotations req w)) = lcws w)
   \<and> lcws (snd (get_annotations req w)) = lcws w"
proof -
  have a: "status (fst (post_annotations now req w)) = 201 \<longrightarrow>
      broadcastToLightcable
        (JObj [(''type'', JStr ''add''), (''id'', js_get (body req) ''id''),
               (''lngLat'', js_get (body req) ''lngLat''),
               (''clientId'', js_or (js_get (body req) ''clientId'') JNull)])
        (snd (hSet (js_get (body req) ''id'')
                   (JSON_stringify (stored_obj (js_get (body req) ''lngLat'') now
                                               (js_get (body req) ''clientId''))) w))
        = Inr (snd (post_annotations now req w))
      \<and> truthy (js_get (body req) ''id'')
      \<and> isArray (js_get (body req) ''lngLat'') \<and> 2 \<le> js_length (js_get (body req) ''lngLat'')"
    using post_201_world [of now req w] post_201 [of now req w] by (intro impI) simp
  have b: "status (fst (post_annotations now req w)) \<noteq> 201 \<longrightarrow>
        lcws (snd (post_annotations now req w)) = lcws w"
    using post_quiet [of now req w] by (intro impI) simp
  have c: "status (fst (put_annotations now req w)) = 200 \<longrightarrow>
      broadcastToLightcable
        (JObj [(''type'', JStr ''update''), (''id'', JStr (params_id req)),
               (''lngLat'', js_get (body req) ''lngLat''),
               (''clientId'', js_or (js_get (body req) ''clientId'') JNull)])
        (snd (hSet (JStr (params_id req))
                   (JSON_stringify (stored_obj (js_get (body req) ''lngLat'') now
                                               (js_get (body req) ''clientId'')))
                   (snd (hGet (params_id req) w))))
        = Inr (snd (put_annotations now req w))
      \<and> isArray (js_get (body req) ''lngLat'') \<and> 2 \<le> js_length (js_get (body req) ''lngLat'')"
    using put_200_world [of now req w] put_200 [of now req w] by (intro impI) simp
  have d: "status (fst (put_annotations now req w)) \<noteq> 200 \<longrightarrow>
        lcws (snd (put_annotations now req w)) = lcws w"
    using put_quiet [of now req w] by (intro impI) simp
  have e: "status (fst (delete_annotations req w)) = 200 \<longrightarrow>
      broadcastToLightcable
        (JObj [(''type'', JStr ''remove''), (''id'', JStr (params_id req)), (''clientId'', JNull)])
        (snd (hDel (params_id req) w))
        = Inr (snd (delete_annotations req w))"
    using delete_200_world [of req w] by (intro impI) simp
  have f: "status (fst (delete_annotations req w)) \<noteq> 200 \<longrightarrow>
        lcws (snd (delete_annotations req w)) = lcws w"
    using delete_quiet [of req w] by (intro impI) simp
  have g: "lcws (snd (get_annotations req w)) = lcws w"
    by (simp add: get_annotations_def hGetAll_def issue_def internal_def console_write_def)
  from a b c d e f g show ?thesis by (intro conjI)
qed

theorem C7_counterexample:
  "status (fst (post_annotations 1000 create_by_7 live_world)) = 201
   \<and> lcws (snd (post_annotations 1000 create_by_7 live_world)) =
       Some (open_socket\<lparr>sent :=
         [Json (JObj [(''type'', JStr ''add''), (''id'', JStr ''a1''),
                      (''lngLat'', JArr [JNum (Finite 10), JNum (Finite 20)]),
                      (''clientId'', JNum (Finite 7))])]\<rparr>)
   \<and> js_get (JObj [(''type'', JStr ''add''), (''id'', JStr ''a1''),
                    (''lngLat'', JArr [JNum (Finite 10), JNum (Finite 20)]),
                    (''clientId'', JNum (Finite 7))]) ''kind'' = JUndefined
   \<and> js_get (JObj [(''type'', JStr ''add''), (''id'', JStr ''a1''),
                    (''lngLat'', JArr [JNum (Finite 10), JNum (Finite 20)]),
                    (''clientId'', JNum (Finite 7))]) ''position'' = JUndefined"
  by (simp add: sample_defs handler_eval)

theorem C7_witness:
  "status (fst (post_annotations 1000 create_a1 live_world)) = 201
   \<and> broadcastToLightcable
        (JObj [(''type'', JStr ''add''), (''id'', js_get (body create_a1) ''id''),
               (''lngLat'', js_get (body create_a1) ''lngLat''),
               (''clientId'', js_or (js_get (body create_a1) ''clientId'') JNull)])
        (snd (hSet (js_get (body create_a1) ''id'')
                   (JSON_stringify (stored_obj (js_get (body create_a1) ''lngLat'') 1000
                                               (js_get (body create_a1) ''clientId''))) live_world))
        = Inr (snd (post_annotations 1000 create_a1 live_world))
   \<and> status (fst (put_annotations 1000 update_a1 live_world)) = 200
   \<and> broadcastToLightcable
        (JObj [(''type'', JStr ''update''), (''id'', JStr (params_id update_a1)),
               (''lngLat'', js_get (body update_a1) ''lngLat''),
               (''clientId'', js_or (js_get (body update_a1) ''clientId'') JNull)])
        (snd (hSet (JStr (params_id update_a1))
                   (JSON_stringify (stored_obj (js_get (body update_a1) ''lngLat'') 1000
                                               (js_get (body update_a1) ''clientId'')))
                   (snd (hGet (params_id update_a1) live_world))))
        = Inr (snd (put_annotations 1000 update_a1 live_world))
   \<and> status (fst (delete_annotations update_a1 live_world)) = 200
   \<and> broadcastToLightcable
        (JObj [(''type'', JStr ''remove''), (''id'', JStr (params_id update_a1)), (''clientId'', JNull)])
        (snd (hDel (params_id update_a1) live_world))
        = Inr (snd (delete_annotations update_a1 live_world))
   \<and> status (fst (post_annotations 1000 update_a1 live_world)) \<noteq> 201
   \<and> lcws (snd (post_annotations 1000 update_a1 live_world)) = lcws live_world"
proof -
  have p1: "status (fst (post_annotations 1000 create_a1 live_world)) = 201"
    by (simp add: sample_defs handler_eval)
  have p2: "status (fst (put_annotations 1000 update_a1 live_world)) = 200"
    by (simp add: sample_defs handler_eval)
  have p3: "status (fst (delete_annotations update_a1 live_world)) = 200"
    by (simp add: sample_defs handler_eval)
  have p4: "status (fst (post_annotations 1000 update_a1 live_world)) \<noteq> 201"
    by (simp add: sample_defs handler_eval)
  note a = C7_event_shape [of 1000 create_a1 live_world] and b = C7_event_shape [of 1000 update_a1 live_world]
  from a p1 have q1: "broadcastToLightcable
        (JObj [(''type'', JStr ''add''), (''id'', js_get (body create_a1) ''id''),
               (''lngLat'', js_get (body create_a1) ''lngLat''),
               (''clientId'', js_or (js_get (body create_a1) ''clientId'') JNull)])
        (snd (hSet (js_get (body create_a1) ''id'')
                   (JSON_stringify (stored_obj (js_get (body create_a1) ''lngLat'') 1000
                                               (js_get (body create_a1) ''clientId''))) live_world))
        = Inr (snd (post_annotations 1000 create_a1 live_world))" by (elim conjE) simp
  from b p2 have q2: "broadcastToLightcable
        (JObj [(''type'', JStr ''update''), (''id'', JStr (params_id update_a1)),
               (''lngLat'', js_get (body update_a1) ''lngLat''),
               (''clientId'', js_or (js_get (body update_a1) ''clientId'') JNull)])
        (snd (hSet (JStr (params_id update_a1))
                   (JSON_stringify (stored_obj (js_get (body update_a1) ''lngLat'') 1000
                                               (js_get (body update_a1) ''clientId'')))
                   (snd (hGet (params_id update_a1) live_world))))
        = Inr (snd (put_annotations 1000 update_a1 live_world))" by (elim conjE) simp
  from b p3 have q3: "broadcastToLightcable
        (JObj [(''type'', JStr ''remove''), (''id'', JStr (params_id update_a1)), (''clientId'', JNull)])
        (snd (hDel (params_id update_a1) live_world))
        = Inr (snd (delete_annotations update_a1 live_world))" by (elim conjE) simp
  from b p4 have q4: "lcws (snd (post_annotations 1000 update_a1 live_world)) = lcws live_world"
    by (elim conjE) simp
  from p1 p2 p3 p4 q1 q2 q3 q4 show ?thesis by (intro conjI)
qed

text \<open>
  \<^bold>\<open>C8.\<close> \<^verbatim>\<open>broadcastToLightcable\<close> never throws: for every event and every state it
  returns. If the socket is there and \<^verbatim>\<open>OPEN\<close>, the event is serialised and sent, and when
  \<^verbatim>\<open>send\<close> throws the exception is caught and logged, the state being otherwise unchanged.
  If there is no socket or it is not \<^verbatim>\<open>OPEN\<close> (as always when no endpoint is configured:
  neither the start of the module nor a timeout then makes one), the event is dropped:
  the state changes by one console line only, so nothing is queued and no timeout is set
  for it. And the forwarder cannot fail a store operation: the response of a create, an
  update or a delete, and the hash it leaves, are the same whatever \<^verbatim>\<open>lcws\<close> holds.
\<close>

theorem C8_notify_never_throws:
  "(\<exists>w'. broadcastToLightcable ev w = Inr w')
   \<and> (lcws w = Some ws \<and> readyState ws = OPEN \<and> \<not> send_fails ws \<longrightarrow>
        broadcastToLightcable ev w =
          Inr (w\<lparr>lcws := Some (ws\<lparr>sent := sent ws @ [JSON_stringify ev]\<rparr>)\<rparr>))
   \<and> (lcws w = Some ws \<and> readyState ws = OPEN \<and> send_fails ws \<longrightarrow>
        broadcastToLightcable ev w =
          Inr (w\<lparr>console := console w @ [(WARN, [Txt ''LC send err'', Exc SendError])]\<rparr>))
   \<and> (\<not> connected w \<longrightarrow>
        broadcastToLightcable ev w =
          Inr (w\<lparr>console := console w @
                 [(WARN, [Txt ''Lightcable not connected; skip broadcast'', Val ev])]\<rparr>))
   \<and> (LIGHTCABLE_WS_URL env = None \<and> lcws w = None \<longrightarrow>
        \<not> connected (startup env w) \<and> \<not> connected (timeout_fires env w))
   \<and> fst (post_annotations now req (w\<lparr>lcws := l\<rparr>)) = fst (post_annotations now req w)
   \<and> hash (snd (post_annotations now req (w\<lparr>lcws := l\<rparr>))) = hash (snd (post_annotations now req w))
   \<and> fst (put_annotations now req (w\<lparr>lcws := l\<rparr>)) = fst (put_annotations now req w)
   \<and> hash (snd (put_annotations now req (w\<lparr>lcws := l\<rparr>))) = hash (snd (put_annotations now req w))
   \<and> fst (delete_annotations req (w\<lparr>lcws := l\<rparr>)) = fst (delete_annotations req w)
   \<and> hash (snd (delete_annotations req (w\<lparr>lcws := l\<rparr>))) = hash (snd (delete_annotations req w))"
proof -
  have a: "\<exists>w'. broadcastToLightcable ev w = Inr w'" by (rule broadcast_total)
  have b: "lcws w = Some ws \<and> readyState ws = OPEN \<and> \<not> send_fails ws \<longrightarrow>
        broadcastToLightcable ev w =
          Inr (w\<lparr>lcws := Some (ws\<lparr>sent := sent ws @ [JSON_stringify ev]\<rparr>)\<rparr>)"
    by (simp add: forwarder_defs)
  have c: "lcws w = Some ws \<and> readyState ws = OPEN \<and> send_fails ws \<longrightarrow>
        broadcastToLightcable ev w =
          Inr (w\<lparr>console := console w @ [(WARN, [Txt ''LC send err'', Exc SendError])]\<rparr>)"
    by (simp add: forwarder_defs)
  have d: "\<not> connected w \<longrightarrow>
        broadcastToLightcable ev w =
          Inr (w\<lparr>console := console w @
                 [(WARN, [Txt ''Lightcable not connected; skip broadcast'', Val ev])]\<rparr>)"
    by (simp add: forwarder_defs connected_def split: option.split)
  have e: "LIGHTCABLE_WS_URL env = None \<and> lcws w = None \<longrightarrow>
        \<not> connected (startup env w) \<and> \<not> connected (timeout_fires env w)"
    by (simp add: startup_def timeout_fires_def connectLightcable_def connected_def split: list.split)
  from a b c d e post_ignores_lcws put_ignores_lcws delete_ignores_lcws
  show ?thesis by (intro conjI) simp_all
qed

theorem C8_witness:
  "lcws live_world = Some open_socket \<and> readyState open_socket = OPEN \<and> \<not> send_fails open_socket
   \<and> broadcastToLightcable (JObj [(''type'', JStr ''remove''), (''id'', JStr ''a1''), (''clientId'', JNull)])
        live_world =
       Inr (live_world\<lparr>lcws := Some (open_socket\<lparr>sent := sent open_socket @
              [JSON_stringify (JObj [(''type'', JStr ''remove''), (''id'', JStr ''a1''),
                                     (''clientId'', JNull)])]\<rparr>)\<rparr>)
   \<and> lcws broken_world = Some (open_socket\<lparr>send_fails := True\<rparr>)
   \<and> readyState (open_socket\<lparr>send_fails := True\<rparr>) = OPEN
   \<and> send_fails (open_socket\<lparr>send_fails := True\<rparr>)
   \<and> broadcastToLightcable (JObj [(''type'', JStr ''remove''), (''id'', JStr ''a1''), (''clientId'', JNull)])
        broken_world =
       Inr (broken_world\<lparr>console := console broken_world @
              [(WARN, [Txt ''LC send err'', Exc SendError])]\<rparr>)
   \<and> \<not> connected quiet_world
   \<and> broadcastToLightcable (JObj [(''type'', JStr ''remove''), (''id'', JStr ''a1''), (''clientId'', JNull)])
        quiet_world =
       Inr (quiet_world\<lparr>console := console quiet_world @
              [(WARN, [Txt ''Lightcable not connected; skip broadcast'',
                       Val (JObj [(''type'', JStr ''remove''), (''id'', JStr ''a1''),
                                  (''clientId'', JNull)])])]\<rparr>)
   \<and> LIGHTCABLE_WS_URL Map.empty = None \<and> lcws quiet_world = None
   \<and> \<not> connected (startup Map.empty quiet_world)
   \<and> \<not> connected (timeout_fires Map.empty quiet_world)
   \<and> fst (post_annotations 1000 create_a1 (quiet_world\<lparr>lcws := Some (open_socket\<lparr>send_fails := True\<rparr>)\<rparr>))
       = fst (post_annotations 1000 create_a1 quiet_world)"
proof -
  let ?ev = "JObj [(''type'', JStr ''remove''), (''id'', JStr ''a1''), (''clientId'', JNull)]"
  have h1: "lcws live_world = Some open_socket \<and> readyState open_socket = OPEN \<and> \<not> send_fails open_socket"
    by (simp add: sample_defs)
  have h2: "lcws broken_world = Some (open_socket\<lparr>send_fails := True\<rparr>)
            \<and> readyState (open_socket\<lparr>send_fails := True\<rparr>) = OPEN
            \<and> send_fails (open_socket\<lparr>send_fails := True\<rparr>)"
    by (simp add: sample_defs)
  have h3: "\<not> connected quiet_world" by (simp add: sample_defs connected_def)
  have h4: "LIGHTCABLE_WS_URL Map.empty = None \<and> lcws quiet_world = None"
    by (simp add: sample_defs LIGHTCABLE_WS_URL_def env_or_null_def)
  note t1 = C8_notify_never_throws [of ?ev live_world open_socket]
  note t2 = C8_notify_never_throws [of ?ev broken_world "open_socket\<lparr>send_fails := True\<rparr>"]
  note t3 = C8_notify_never_throws [of ?ev quiet_world open_socket Map.empty 1000 create_a1 "Some (open_socket\<lparr>send_fails := True\<rparr>)"]
  from t1 h1 have q1: "broadcastToLightcable ?ev live_world =
       Inr (live_world\<lparr>lcws := Some (open_socket\<lparr>sent := sent open_socket @ [JSON_stringify ?ev]\<rparr>)\<rparr>)"
    by simp
  from t2 h2 have q2: "broadcastToLightcable ?ev broken_world =
       Inr (broken_world\<lparr>console := console broken_world @ [(WARN, [Txt ''LC send err'', Exc SendError])]\<rparr>)"
    by simp
  from t3 h3 have q3: "broadcastToLightcable ?ev quiet_world =
       Inr (quiet_world\<lparr>console := console quiet_world @
              [(WARN, [Txt ''Lightcable not connected; skip broadcast'', Val ?ev])]\<rparr>)"
    by simp
  from t3 h4 have q4: "\<not> connected (startup Map.empty quiet_world)
      \<and> \<not> connected (timeout_fires Map.empty quiet_world)"
    by simp
  from t3 have q5: "fst (post_annotations 1000 create_a1 (quiet_world\<lparr>lcws := Some (open_socket\<lparr>send_fails := True\<rparr>)\<rparr>))
       = fst (post_annotations 1000 create_a1 quiet_world)"
    by simp
  from h1 h2 h3 h4 q1 q2 q3 q4 q5 show ?thesis by (intro conjI) simp_all
qed

text \<open>
  \<^bold>\<open>C9.\<close> With an endpoint configured, whenever the transport reports the socket closed or
  errored, in any state, the forwarder is disconnected (\<^verbatim>\<open>lcws\<close> is \<^verbatim>\<open>null\<close>) and one more
  timeout, of 2000 ms, is pending for \<^verbatim>\<open>connectLightcable\<close>; and when a timeout then fires, a
  new socket is made for the endpoint. This repeats without end and without change: the
  same holds in the state reached after any number of earlier rounds (a report, then a
  timeout firing), whatever the reports were; the delay is 2000 ms every time and the
  state keeps no count of attempts. Starting with no timeout pending, exactly one is
  pending after each such report.
\<close>

theorem C9_reconnect_on_close_or_error:
  assumes "LIGHTCABLE_WS_URL env = Some u" and "closed_or_errored ev"
  shows "lcws (transport_reports env ev w) = None
       \<and> timeouts (transport_reports env ev w) = timeouts w @ [2000]
       \<and> lcws (reconnect_round env ev w) = Some (new_WebSocket u)
       \<and> lcws (transport_reports env ev (fold (reconnect_round env) evs w)) = None
       \<and> timeouts (transport_reports env ev (fold (reconnect_round env) evs w))
           = timeouts (fold (reconnect_round env) evs w) @ [2000]
       \<and> lcws (reconnect_round env ev (fold (reconnect_round env) evs w))
           = Some (new_WebSocket u)
       \<and> (timeouts w = [] \<and> list_all closed_or_errored evs \<longrightarrow>
            timeouts (transport_reports env ev (fold (reconnect_round env) evs w)) = [2000]
          \<and> timeouts (reconnect_round env ev (fold (reconnect_round env) evs w)) = [])"
proof -
  have r: "timeouts w = [] \<and> list_all closed_or_errored evs \<longrightarrow>
            timeouts (transport_reports env ev (fold (reconnect_round env) evs w)) = [2000]
          \<and> timeouts (reconnect_round env ev (fold (reconnect_round env) evs w)) = []"
  proof (intro impI)
    assume a: "timeouts w = [] \<and> list_all closed_or_errored evs"
    then have q: "timeouts (fold (reconnect_round env) evs w) = []"
      using rounds_quiescent [OF assms(1), of w evs] by simp
    from down_effect [OF assms(2), of env "fold (reconnect_round env) evs w"] q
         round_effect [OF assms q]
    show "timeouts (transport_reports env ev (fold (reconnect_round env) evs w)) = [2000]
          \<and> timeouts (reconnect_round env ev (fold (reconnect_round env) evs w)) = []"
      by simp
  qed
  from down_effect [OF assms(2), of env w]
       down_effect [OF assms(2), of env "fold (reconnect_round env) evs w"]
       round_connects [OF assms, of w]
       round_connects [OF assms, of "fold (reconnect_round env) evs w"] r
  show ?thesis by (intro conjI) simp_all
qed

theorem C9_witness:
  "LIGHTCABLE_WS_URL lightcable_env = Some ''ws://localhost:8088/402''
   \<and> closed_or_errored (Errored SendError)
   \<and> timeouts live_world = []
   \<and> list_all closed_or_errored [Closed, Errored SendError, Closed]
   \<and> lcws (transport_reports lightcable_env (Errored SendError) live_world) = None
   \<and> timeouts (transport_reports lightcable_env (Errored SendError) live_world) = [2000]
   \<and> lcws (reconnect_round lightcable_env (Errored SendError) live_world)
       = Some (new_WebSocket ''ws://localhost:8088/402'')
   \<and> timeouts (transport_reports lightcable_env (Errored SendError)
                 (fold (reconnect_round lightcable_env) [Closed, Errored SendError, Closed]
                    live_world)) = [2000]
   \<and> lcws (reconnect_round lightcable_env (Errored SendError)
             (fold (reconnect_round lightcable_env) [Closed, Errored SendError, Closed]
                live_world))
       = Some (new_WebSocket ''ws://localhost:8088/402'')"
proof -
  have h1: "LIGHTCABLE_WS_URL lightcable_env = Some ''ws://localhost:8088/402''"
    by (simp add: lightcable_env_def LIGHTCABLE_WS_URL_def env_or_null_def)
  have h2: "closed_or_errored (Errored SendError)" by simp
  have h3: "timeouts live_world = []" by (simp add: sample_defs)
  have h4: "list_all closed_or_errored [Closed, Errored SendError, Closed]" by simp
  note t = C9_reconnect_on_close_or_error
             [OF h1 h2, of live_world "[Closed, Errored SendError, Closed]"]
  from t h3 have c: "lcws (transport_reports lightcable_env (Errored SendError) live_world) = None
     \<and> timeouts (transport_reports lightcable_env (Errored SendError) live_world) = [2000]
     \<and> lcws (reconnect_round lightcable_env (Errored SendError) live_world)
       = Some (new_WebSocket ''ws://localhost:8088/402'')"
    by simp
  from t h3 h4 have a:
    "timeouts (transport_reports lightcable_env (Errored SendError)
                 (fold (reconnect_round lightcable_env) [Closed, Errored SendError, Closed]
                    live_world)) = [2000]
     \<and> lcws (reconnect_round lightcable_env (Errored SendError)
             (fold (reconnect_round lightcable_env) [Closed, Errored SendError, Closed]
                live_world))
       = Some (new_WebSocket ''ws://localhost:8088/402'')"
    by blast
  from h1 h2 h3 h4 c a show ?thesis by (intro conjI) simp_all
qed

text \<open>
  \<^bold>\<open>C10.\<close> When the \<^verbatim>\<open>clientId\<close> of the request is falsy (absent, \<^verbatim>\<open>null\<close>, \<^verbatim>\<open>false\<close>, \<^verbatim>\<open>0\<close>,
  the empty string), a create answered 201 and an update answered 200 store a payload
  whose \<^verbatim>\<open>clientId\<close> is \<^verbatim>\<open>null\<close> (in the \<^verbatim>\<open>HSET\<close> sent, and in the hash under a string id),
  return a record whose \<^verbatim>\<open>clientId\<close> is \<^verbatim>\<open>null\<close>, and hand the forwarder an event whose
  \<^verbatim>\<open>clientId\<close> is \<^verbatim>\<open>null\<close>.
\<close>

theorem C10_falsy_clientId_is_null:
  assumes "\<not> truthy (js_get (body req) ''clientId'')"
  shows "(status (fst (post_annotations now req w)) = 201 \<longrightarrow>
            (\<exists>l t. redis_calls (snd (post_annotations now req w)) =
                      redis_calls w @ [HSET (js_get (body req) ''id'')
                        (Json (JObj [(''lngLat'', l), (''updatedAt'', t), (''clientId'', JNull)]))]
                  \<and> (\<forall>i. js_get (body req) ''id'' = JStr i \<longrightarrow>
                        map_of (hash (snd (post_annotations now req w))) i =
                          Some (Json (JObj [(''lngLat'', l), (''updatedAt'', t), (''clientId'', JNull)]))))
          \<and> js_get (json (fst (post_annotations now req w))) ''clientId'' = JNull
          \<and> broadcastToLightcable
              (JObj [(''type'', JStr ''add''), (''id'', js_get (body req) ''id''),
                     (''lngLat'', js_get (body req) ''lngLat''), (''clientId'', JNull)])
              (snd (hSet (js_get (body req) ''id'')
                         (JSON_stringify (stored_obj (js_get (body req) ''lngLat'') now
                                                     (js_get (body req) ''clientId''))) w))
              = Inr (snd (post_annotations now req w)))
       \<and> (status (fst (put_annotations now req w)) = 200 \<longrightarrow>
            (\<exists>l t. redis_calls (snd (put_annotations now req w)) =
                      redis_calls w @ [HGET (params_id req), HSET (JStr (params_id req))
                        (Json (JObj [(''lngLat'', l), (''updatedAt'', t), (''clientId'', JNull)]))]
                  \<and> map_of (hash (snd (put_annotations now req w))) (params_id req) =
                      Some (Json (JObj [(''lngLat'', l), (''updatedAt'', t), (''clientId'', JNull)])))
          \<and> js_get (json (fst (put_annotations now req w))) ''clientId'' = JNull
          \<and> broadcastToLightcable
              (JObj [(''type'', JStr ''update''), (''id'', JStr (params_id req)),
                     (''lngLat'', js_get (body req) ''lngLat''), (''clientId'', JNull)])
              (snd (hSet (JStr (params_id req))
                         (JSON_stringify (stored_obj (js_get (body req) ''lngLat'') now
                                                     (js_get (body req) ''clientId'')))
                         (snd (hGet (params_id req) w))))
              = Inr (snd (put_annotations now req w)))"
proof (intro conjI impI)
  let ?c = "js_get (body req) ''clientId''"
  note n = js_or_falsy [OF assms]
  assume ok: "status (fst (post_annotations now req w)) = 201"
  from post_201 [OF ok] obtain xs where
    f: "redis_up w" "truthy (js_get (body req) ''id'')" "js_get (body req) ''lngLat'' = JArr xs" "2 \<le> length xs"
    using isArray_JArr [of "js_get (body req) ''lngLat''"] by auto
  have p: "JSON_stringify (stored_obj (JArr xs) now ?c) =
      Json (JObj [(''lngLat'', to_json (JArr xs)), (''updatedAt'', JNum (Finite (of_int now))),
                  (''clientId'', JNull)])"
    using stringify_stored [of xs now ?c] n by simp
  have calls: "redis_calls (snd (post_annotations now req w)) =
                redis_calls w @ [HSET (js_get (body req) ''id'')
                  (Json (JObj [(''lngLat'', to_json (JArr xs)), (''updatedAt'', JNum (Finite (of_int now))),
                               (''clientId'', JNull)]))]"
    using post_201_calls [OF ok] f(3) p by simp
  have stored: "\<forall>i. js_get (body req) ''id'' = JStr i \<longrightarrow>
                  map_of (hash (snd (post_annotations now req w))) i =
                    Some (Json (JObj [(''lngLat'', to_json (JArr xs)), (''updatedAt'', JNum (Finite (of_int now))),
                                      (''clientId'', JNull)]))"
  proof (intro allI impI)
    fix i assume i: "js_get (body req) ''id'' = JStr i"
    with f(2) have "i \<noteq> []" by simp
    from post_accepts [OF f(1) i this f(3,4), of now] p
    show "map_of (hash (snd (post_annotations now req w))) i =
                    Some (Json (JObj [(''lngLat'', to_json (JArr xs)), (''updatedAt'', JNum (Finite (of_int now))),
                                      (''clientId'', JNull)]))"
      by (simp add: AList.update_conv')
  qed
  from calls stored
  show "\<exists>l t. redis_calls (snd (post_annotations now req w)) =
                      redis_calls w @ [HSET (js_get (body req) ''id'')
                        (Json (JObj [(''lngLat'', l), (''updatedAt'', t), (''clientId'', JNull)]))]
                  \<and> (\<forall>i. js_get (body req) ''id'' = JStr i \<longrightarrow>
                        map_of (hash (snd (post_annotations now req w))) i =
                          Some (Json (JObj [(''lngLat'', l), (''updatedAt'', t), (''clientId'', JNull)])))"
    by blast
  have j: "json (fst (post_annotations now req w)) =
      JObj (spread (stored_obj (js_get (body req) ''lngLat'') now ?c) [(''id'', js_get (body req) ''id'')])"
    using post_201_world [OF ok] post_201 [OF ok] ok
    by (auto simp: post_annotations_def Let_def internal_def split: prod.splits sum.splits)
  then show "js_get (json (fst (post_annotations now req w))) ''clientId'' = JNull"
    using n by (simp add: spread_def)
  from post_201_world [OF ok] n
  show "broadcastToLightcable
              (JObj [(''type'', JStr ''add''), (''id'', js_get (body req) ''id''),
                     (''lngLat'', js_get (body req) ''lngLat''), (''clientId'', JNull)])
              (snd (hSet (js_get (body req) ''id'')
                         (JSON_stringify (stored_obj (js_get (body req) ''lngLat'') now
                                                     (js_get (body req) ''clientId''))) w))
              = Inr (snd (post_annotations now req w))"
    by simp
next
  let ?c = "js_get (body req) ''clientId''"
  note n = js_or_falsy [OF assms]
  assume ok: "status (fst (put_annotations now req w)) = 200"
  from put_200 [OF ok] obtain xs where
    f: "redis_up w" "destructurable (body req)" "js_get (body req) ''lngLat'' = JArr xs" "2 \<le> length xs"
    using isArray_JArr [of "js_get (body req) ''lngLat''"] by auto
  have p: "JSON_stringify (stored_obj (JArr xs) now ?c) =
      Json (JObj [(''lngLat'', to_json (JArr xs)), (''updatedAt'', JNum (Finite (of_int now))),
                  (''clientId'', JNull)])"
    using stringify_stored [of xs now ?c] n by simp
  note pa = put_accepts [OF f, of now]
  from pa p have "redis_calls (snd (put_annotations now req w)) =
                      redis_calls w @ [HGET (params_id req), HSET (JStr (params_id req))
                        (Json (JObj [(''lngLat'', to_json (JArr xs)), (''updatedAt'', JNum (Finite (of_int now))), (''clientId'', JNull)]))]
                  \<and> map_of (hash (snd (put_annotations now req w))) (params_id req) =
                      Some (Json (JObj [(''lngLat'', to_json (JArr xs)), (''updatedAt'', JNum (Finite (of_int now))), (''clientId'', JNull)]))"
    by (simp add: AList.update_conv')
  then show "\<exists>l t. redis_calls (snd (put_annotations now req w)) =
                      redis_calls w @ [HGET (params_id req), HSET (JStr (params_id req))
                        (Json (JObj [(''lngLat'', l), (''updatedAt'', t), (''clientId'', JNull)]))]
                  \<and> map_of (hash (snd (put_annotations now req w))) (params_id req) =
                      Some (Json (JObj [(''lngLat'', l), (''updatedAt'', t), (''clientId'', JNull)]))"
    by blast
  from pa n show "js_get (json (fst (put_annotations now req w))) ''clientId'' = JNull"
    by (simp add: spread_def)
  from put_200_world [OF ok] n
  show "broadcastToLightcable
              (JObj [(''type'', JStr ''update''), (''id'', JStr (params_id req)),
                     (''lngLat'', js_get (body req) ''lngLat''), (''clientId'', JNull)])
              (snd (hSet (JStr (params_id req))
                         (JSON_stringify (stored_obj (js_get (body req) ''lngLat'') now
                                                     (js_get (body req) ''clientId'')))
                         (snd (hGet (params_id req) w))))
              = Inr (snd (put_annotations now req w))"
    by simp
qed

theorem C10_witness:
  "\<not> truthy (js_get (body create_blank_client) ''clientId'')
   \<and> js_get (body create_blank_client) ''clientId'' = JStr []
   \<and> status (fst (post_annotations 1000 create_blank_client live_world)) = 201
   \<and> js_get (body create_blank_client) ''id'' = JStr ''a1''
   \<and> (\<exists>l t. map_of (hash (snd (post_annotations 1000 create_blank_client live_world))) ''a1'' =
               Some (Json (JObj [(''lngLat'', l), (''updatedAt'', t), (''clientId'', JNull)])))
   \<and> js_get (json (fst (post_annotations 1000 create_blank_client live_world))) ''clientId'' = JNull
   \<and> broadcastToLightcable
        (JObj [(''type'', JStr ''add''), (''id'', js_get (body create_blank_client) ''id''),
               (''lngLat'', js_get (body create_blank_client) ''lngLat''), (''clientId'', JNull)])
        (snd (hSet (js_get (body create_blank_client) ''id'')
                   (JSON_stringify (stored_obj (js_get (body create_blank_client) ''lngLat'') 1000
                                               (js_get (body create_blank_client) ''clientId'')))
                   live_world))
        = Inr (snd (post_annotations 1000 create_blank_client live_world))
   \<and> status (fst (put_annotations 1000 create_blank_client live_world)) = 200
   \<and> (\<exists>l t. map_of (hash (snd (put_annotations 1000 create_blank_client live_world)))
                 (params_id create_blank_client) =
               Some (Json (JObj [(''lngLat'', l), (''updatedAt'', t), (''clientId'', JNull)])))
   \<and> js_get (json (fst (put_annotations 1000 create_blank_client live_world))) ''clientId'' = JNull"
proof -
  have h: "\<not> truthy (js_get (body create_blank_client) ''clientId'')"
    by (simp add: sample_defs)
  have h': "js_get (body create_blank_client) ''clientId'' = JStr []"
    by (simp add: sample_defs)
  have p1: "status (fst (post_annotations 1000 create_blank_client live_world)) = 201"
    by (simp add: sample_defs handler_eval)
  have p2: "js_get (body create_blank_client) ''id'' = JStr ''a1''"
    by (simp add: sample_defs)
  have p3: "status (fst (put_annotations 1000 create_blank_client live_world)) = 200"
    by (simp add: sample_defs handler_eval)
  note t = C10_falsy_clientId_is_null [OF h, of 1000 live_world]
  from t p1 p2 have a: "\<exists>l t. map_of (hash (snd (post_annotations 1000 create_blank_client live_world))) ''a1'' =
               Some (Json (JObj [(''lngLat'', l), (''updatedAt'', t), (''clientId'', JNull)]))"
    by blast
  from t p1 have b: "js_get (json (fst (post_annotations 1000 create_blank_client live_world))) ''clientId'' = JNull
   \<and> broadcastToLightcable
        (JObj [(''type'', JStr ''add''), (''id'', js_get (body create_blank_client) ''id''),
               (''lngLat'', js_get (body create_blank_client) ''lngLat''), (''clientId'', JNull)])
        (snd (hSet (js_get (body create_blank_client) ''id'')
                   (JSON_stringify (stored_obj (js_get (body create_blank_client) ''lngLat'') 1000
                                               (js_get (body create_blank_client) ''clientId'')))
                   live_world))
        = Inr (snd (post_annotations 1000 create_blank_client live_world))"
    by blast
  from t p3 have c: "(\<exists>l t. map_of (hash (snd (put_annotations 1000 create_blank_client live_world)))
                 (params_id create_blank_client) =
               Some (Json (JObj [(''lngLat'', l), (''updatedAt'', t), (''clientId'', JNull)])))
   \<and> js_get (json (fst (put_annotations 1000 create_blank_client live_world))) ''clientId'' = JNull"
    by blast
  from h h' p1 p2 p3 a b c show ?thesis by (intro conjI) blast+
qed

end
